theory Spec2Isabelle
  imports Main
begin

section \<open>Errors\<close>

text \<open>
  The exceptions that the modelled code can raise: \<open>ValueError\<close> (a field out of
  range in \<open>datetime.replace\<close>, \<open>int\<close> of a bad literal, a tuple unpacking of the
  wrong length, \<open>strptime\<close> of a bad text), \<open>OverflowError\<close> (a date outside the years
  1 to 9999, an argument of \<open>datetime.replace\<close> that does not fit a C \<open>int\<close>) and the
  scheduler's \<open>ConflictingIdError\<close>.
\<close>

datatype error = ValueError | OverflowError | ConflictingIdError

section \<open>The calendar of \<open>datetime\<close>\<close>

text \<open>
  \<open>main.py\<close> computes with naive \<open>datetime\<close> values. The part of the standard
  library it relies on is written out here: the proleptic Gregorian calendar with
  years 1 to 9999, ordinals, weekdays, field replacement with validation,
  comparison, and the addition of a \<open>timedelta\<close>.
\<close>

definition is_leap :: "int \<Rightarrow> bool" where
  "is_leap y = (y mod 4 = 0 \<and> (y mod 100 \<noteq> 0 \<or> y mod 400 = 0))"

definition days_in_month :: "int \<Rightarrow> int \<Rightarrow> int" where
  "days_in_month y m =
     (if m = 2 then (if is_leap y then 29 else 28)
      else if m = 4 \<or> m = 6 \<or> m = 9 \<or> m = 11 then 30 else 31)"

definition days_before_year :: "int \<Rightarrow> int" where
  "days_before_year y = (y - 1) * 365 + (y - 1) div 4 - (y - 1) div 100 + (y - 1) div 400"

definition days_before_month :: "int \<Rightarrow> int \<Rightarrow> int" where
  "days_before_month y m =
     (if m = 1 then 0 else if m = 2 then 31 else if m = 3 then 59 else if m = 4 then 90
      else if m = 5 then 120 else if m = 6 then 151 else if m = 7 then 181
      else if m = 8 then 212 else if m = 9 then 243 else if m = 10 then 273
      else if m = 11 then 304 else 334)
     + (if m > 2 \<and> is_leap y then 1 else 0)"

record datetime =
  year :: int
  month :: int
  day :: int
  hour :: int
  minute :: int
  second :: int
  microsecond :: int

definition MAXORDINAL :: int where
  "MAXORDINAL = 3652059"

definition valid_date :: "datetime \<Rightarrow> bool" where
  "valid_date dt =
     (1 \<le> year dt \<and> year dt \<le> 9999 \<and> 1 \<le> month dt \<and> month dt \<le> 12
      \<and> 1 \<le> day dt \<and> day dt \<le> days_in_month (year dt) (month dt))"

definition valid_time :: "datetime \<Rightarrow> bool" where
  "valid_time dt =
     (0 \<le> hour dt \<and> hour dt \<le> 23 \<and> 0 \<le> minute dt \<and> minute dt \<le> 59
      \<and> 0 \<le> second dt \<and> second dt \<le> 59
      \<and> 0 \<le> microsecond dt \<and> microsecond dt \<le> 999999)"

definition valid_datetime :: "datetime \<Rightarrow> bool" where
  "valid_datetime dt = (valid_date dt \<and> valid_time dt)"

text \<open>The constructor \<open>datetime(...)\<close>: it raises \<open>ValueError\<close> on a field out of range.\<close>

definition datetime_new :: "int \<Rightarrow> int \<Rightarrow> int \<Rightarrow> int \<Rightarrow> int \<Rightarrow> int \<Rightarrow> int \<Rightarrow> error + datetime" where
  "datetime_new y mo d h mi s us =
     (let dt = \<lparr>year = y, month = mo, day = d, hour = h, minute = mi, second = s,
                microsecond = us\<rparr>
      in if valid_datetime dt then Inr dt else Inl ValueError)"

text \<open>
  \<open>dt.replace(year=, month=, day=, hour=, minute=)\<close>: a keyword that is not given is
  \<open>None\<close> here and keeps the field. The interpreter first converts every given
  argument to a C \<open>int\<close>: a value outside \<open>-2\<^sup>3\<^sup>1\<close> to \<open>2\<^sup>3\<^sup>1 - 1\<close> raises
  \<open>OverflowError\<close>. The result is then built by the constructor, so it is validated
  as a whole, with \<open>ValueError\<close> for a field out of range.
\<close>

definition c_int :: "int \<Rightarrow> bool" where
  "c_int v = (- 2147483648 \<le> v \<and> v \<le> 2147483647)"

definition given_c_int :: "int option \<Rightarrow> bool" where
  "given_c_int a = (case a of None \<Rightarrow> True | Some v \<Rightarrow> c_int v)"

definition replace ::
  "datetime \<Rightarrow> int option \<Rightarrow> int option \<Rightarrow> int option \<Rightarrow> int option \<Rightarrow> int option
     \<Rightarrow> error + datetime" where
  "replace dt y mo d h mi =
     (if given_c_int y \<and> given_c_int mo \<and> given_c_int d \<and> given_c_int h \<and> given_c_int mi
      then datetime_new (case y of None \<Rightarrow> year dt | Some v \<Rightarrow> v)
                        (case mo of None \<Rightarrow> month dt | Some v \<Rightarrow> v)
                        (case d of None \<Rightarrow> day dt | Some v \<Rightarrow> v)
                        (case h of None \<Rightarrow> hour dt | Some v \<Rightarrow> v)
                        (case mi of None \<Rightarrow> minute dt | Some v \<Rightarrow> v)
                        (second dt) (microsecond dt)
      else Inl OverflowError)"

definition toordinal :: "datetime \<Rightarrow> int" where
  "toordinal dt = days_before_year (year dt) + days_before_month (year dt) (month dt) + day dt"

text \<open>\<open>weekday()\<close>: Monday is 0 and Sunday is 6.\<close>

definition weekday :: "datetime \<Rightarrow> int" where
  "weekday dt = (toordinal dt + 6) mod 7"

text \<open>Comparison of two naive datetimes: lexicographic on the seven fields.\<close>

definition dt_less :: "datetime \<Rightarrow> datetime \<Rightarrow> bool" where
  "dt_less a b =
     (year a < year b \<or> year a = year b \<and>
     (month a < month b \<or> month a = month b \<and>
     (day a < day b \<or> day a = day b \<and>
     (hour a < hour b \<or> hour a = hour b \<and>
     (minute a < minute b \<or> minute a = minute b \<and>
     (second a < second b \<or> second a = second b \<and>
      microsecond a < microsecond b))))))"

definition dt_le :: "datetime \<Rightarrow> datetime \<Rightarrow> bool" where
  "dt_le a b = (\<not> dt_less b a)"

text \<open>The comparison of the dates alone.\<close>

definition date_less :: "datetime \<Rightarrow> datetime \<Rightarrow> bool" where
  "date_less a b =
     (year a < year b \<or> year a = year b \<and>
     (month a < month b \<or> month a = month b \<and> day a < day b))"

text \<open>
  The position of a datetime on the time line, in microseconds since the start of
  day 0 of the ordinal count. Intervals such as "within 24 hours of now" are stated
  with it.
\<close>

definition seconds_of_day :: "datetime \<Rightarrow> int" where
  "seconds_of_day dt = hour dt * 3600 + minute dt * 60 + second dt"

definition to_micro :: "datetime \<Rightarrow> int" where
  "to_micro dt = (toordinal dt * 86400 + seconds_of_day dt) * 1000000 + microsecond dt"

text \<open>Stepping the calendar by one day, forwards and backwards; the time of day is kept.\<close>

definition tomorrow :: "datetime \<Rightarrow> datetime" where
  "tomorrow dt =
     (if day dt < days_in_month (year dt) (month dt) then dt\<lparr>day := day dt + 1\<rparr>
      else if month dt < 12 then dt\<lparr>month := month dt + 1, day := 1\<rparr>
      else dt\<lparr>year := year dt + 1, month := 1, day := 1\<rparr>)"

definition yesterday :: "datetime \<Rightarrow> datetime" where
  "yesterday dt =
     (if 1 < day dt then dt\<lparr>day := day dt - 1\<rparr>
      else if 1 < month dt
        then dt\<lparr>month := month dt - 1, day := days_in_month (year dt) (month dt - 1)\<rparr>
      else dt\<lparr>year := year dt - 1, month := 12, day := 31\<rparr>)"

fun days_later :: "nat \<Rightarrow> datetime \<Rightarrow> datetime" where
  "days_later 0 dt = dt"
| "days_later (Suc n) dt = days_later n (tomorrow dt)"

fun days_earlier :: "nat \<Rightarrow> datetime \<Rightarrow> datetime" where
  "days_earlier 0 dt = dt"
| "days_earlier (Suc n) dt = days_earlier n (yesterday dt)"

text \<open>
  The date \<open>k\<close> days away from the date of \<open>dt\<close> (\<open>k\<close> may be negative), with the
  time of day of \<open>dt\<close>. The library computes it as \<open>fromordinal (toordinal dt + k)\<close>;
  here the calendar is stepped day by day, and \<open>toordinal_shift_days\<close> below shows
  that the result is the valid date with that ordinal.
\<close>

definition shift_days :: "datetime \<Rightarrow> int \<Rightarrow> datetime" where
  "shift_days dt k = (if 0 \<le> k then days_later (nat k) dt else days_earlier (nat (- k)) dt)"

text \<open>
  A \<open>timedelta\<close> is normalised to days, seconds in \<open>[0, 86400)\<close> and microseconds in
  \<open>[0, 1000000)\<close>. \<open>timedelta(days=d, hours=h)\<close> raises \<open>OverflowError\<close> when the
  number of days leaves \<open>\<plusminus>999999999\<close>.
\<close>

record timedelta =
  td_days :: int
  td_seconds :: int
  td_microseconds :: int

definition timedelta_new :: "int \<Rightarrow> int \<Rightarrow> error + timedelta" where
  "timedelta_new d h =
     (let s = h * 3600; dd = d + s div 86400
      in if dd < - 999999999 \<or> 999999999 < dd then Inl OverflowError
         else Inr \<lparr>td_days = dd, td_seconds = s mod 86400, td_microseconds = 0\<rparr>)"

text \<open>
  \<open>dt + td\<close>: the fields are added with carries from microseconds to seconds to days;
  a date outside the ordinals 1 to \<open>MAXORDINAL\<close> raises \<open>OverflowError\<close>.
\<close>

definition plus_timedelta :: "datetime \<Rightarrow> timedelta \<Rightarrow> error + datetime" where
  "plus_timedelta dt td =
     (let us = microsecond dt + td_microseconds td;
          s = seconds_of_day dt + td_seconds td + us div 1000000;
          k = td_days td + s div 86400;
          r = s mod 86400
      in if 0 < toordinal dt + k \<and> toordinal dt + k \<le> MAXORDINAL
         then Inr ((shift_days dt k)\<lparr>hour := r div 3600, minute := r mod 3600 div 60,
                     second := r mod 60, microsecond := us mod 1000000\<rparr>)
         else Inl OverflowError)"

text \<open>\<open>dt + timedelta(days=d, hours=h)\<close>, with the errors of both steps.\<close>

definition plus_days_hours :: "datetime \<Rightarrow> int \<Rightarrow> int \<Rightarrow> error + datetime" where
  "plus_days_hours dt d h =
     (case timedelta_new d h of Inl e \<Rightarrow> Inl e | Inr td \<Rightarrow> plus_timedelta dt td)"

section \<open>Texts: \<open>split\<close>, \<open>int\<close>, \<open>strftime\<close> and \<open>strptime\<close>\<close>

text \<open>
  A Python \<open>str\<close> is modelled by a \<open>string\<close>; a \<open>char\<close> stands for a code point
  below 256. \<open>s.split(sep)\<close> with a one-character separator cuts at every occurrence
  of it and never returns an empty list.
\<close>

fun split_on :: "char \<Rightarrow> string \<Rightarrow> string list" where
  "split_on c [] = [[]]"
| "split_on c (x # xs) =
     (if x = c then [] # split_on c xs
      else (case split_on c xs of [] \<Rightarrow> [[x]] | p # ps \<Rightarrow> (x # p) # ps))"

text \<open>
  \<open>int(s)\<close> on a text: surrounding white space is dropped, a sign may lead, and the
  rest must be decimal digits, where single underscores may stand between digits.
  More than 4300 digits, like any other malformed literal, raise \<open>ValueError\<close>.
  The white space that \<open>int\<close> drops is the ASCII white space (code points 9 to 13
  and 32) and, of the code points from 128 on, those that are white space in Unicode
  (133 and 160 below 256). The separators 28 to 31, which \<open>str.strip\<close> would drop,
  are not white space for \<open>int\<close>: a text with one of them is a malformed literal.
\<close>

definition is_space :: "char \<Rightarrow> bool" where
  "is_space c =
     (let n = (of_char c :: int)
      in (9 \<le> n \<and> n \<le> 13) \<or> n = 32 \<or> n = 133 \<or> n = 160)"

definition strip :: "string \<Rightarrow> string" where
  "strip s = rev (dropWhile is_space (rev (dropWhile is_space s)))"

definition is_digit :: "char \<Rightarrow> bool" where
  "is_digit c = (48 \<le> (of_char c :: int) \<and> (of_char c :: int) \<le> 57)"

definition digit_val :: "char \<Rightarrow> int" where
  "digit_val c = of_char c - 48"

fun digits_value :: "int \<Rightarrow> bool \<Rightarrow> string \<Rightarrow> int option" where
  "digits_value acc prev [] = (if prev then Some acc else None)"
| "digits_value acc prev (c # cs) =
     (if is_digit c then digits_value (acc * 10 + digit_val c) True cs
      else if c = CHR ''_'' \<and> prev then digits_value acc False cs
      else None)"

definition int_py :: "string \<Rightarrow> error + int" where
  "int_py s =
     (let t = strip s;
          neg = (t \<noteq> [] \<and> hd t = CHR ''-'');
          body = (if t \<noteq> [] \<and> (hd t = CHR ''-'' \<or> hd t = CHR ''+'') then tl t else t)
      in if 4300 < length (filter is_digit body) then Inl ValueError
         else (case digits_value 0 False body of
                 None \<Rightarrow> Inl ValueError
               | Some v \<Rightarrow> Inr (if neg then - v else v)))"

text \<open>Unpacking into two names: any other number of items raises \<open>ValueError\<close>.\<close>

definition unpack2 :: "'a list \<Rightarrow> error + ('a \<times> 'a)" where
  "unpack2 xs = (case xs of [a, b] \<Rightarrow> Inr (a, b) | _ \<Rightarrow> Inl ValueError)"

text \<open>\<open>hour, minute = map(int, time.split(':'))\<close>\<close>

definition parse_hour_minute :: "string \<Rightarrow> error + (int \<times> int)" where
  "parse_hour_minute time =
     (case unpack2 (split_on CHR '':'' time) of
        Inl e \<Rightarrow> Inl e
      | Inr (a, b) \<Rightarrow>
          (case int_py a of
             Inl e \<Rightarrow> Inl e
           | Inr h \<Rightarrow> (case int_py b of Inl e \<Rightarrow> Inl e | Inr mi \<Rightarrow> Inr (h, mi))))"

text \<open>
  The weekly and the monthly branch start alike:
  \<open>day, time = schedule_value.split(',')\<close>, then
  \<open>hour, minute = map(int, time.split(':'))\<close>, then \<open>int(day)\<close>. Each step can only
  raise \<open>ValueError\<close>.
\<close>

definition parse_day_time :: "string \<Rightarrow> error + (int \<times> int \<times> int)" where
  "parse_day_time schedule_value =
     (case unpack2 (split_on CHR '','' schedule_value) of
        Inl e \<Rightarrow> Inl e
      | Inr (day_text, time) \<Rightarrow>
          (case parse_hour_minute time of
             Inl e \<Rightarrow> Inl e
           | Inr (h, mi) \<Rightarrow>
               (case int_py day_text of Inl e \<Rightarrow> Inl e | Inr d \<Rightarrow> Inr (d, h, mi))))"

text \<open>
  \<open>dt.strftime('%Y-%m-%d %H:%M:%S')\<close>: the interpreter hands the format to the
  \<open>strftime\<close> of the C library, which on Linux (glibc) writes the year as a plain
  decimal number, without padding, so a year below 1000 has fewer than four digits.
  The other fields have two digits, padded with zeros; the microseconds are not
  written.
\<close>

definition digit_char :: "int \<Rightarrow> char" where
  "digit_char n = char_of (48 + n)"

definition zero_pad2 :: "int \<Rightarrow> string" where
  "zero_pad2 n = [digit_char (n div 10 mod 10), digit_char (n mod 10)]"

function decimal :: "int \<Rightarrow> string" where
  "decimal n =
     (if n < 10 then [digit_char n]
      else decimal (n div 10) @ [digit_char (n mod 10)])"
  by pat_completeness auto

termination
  by (relation "measure nat") auto

declare decimal.simps [simp del]

definition strftime :: "datetime \<Rightarrow> string" where
  "strftime dt =
     decimal (year dt) @ ''-'' @ zero_pad2 (month dt) @ ''-'' @ zero_pad2 (day dt) @ '' ''
     @ zero_pad2 (hour dt) @ '':'' @ zero_pad2 (minute dt) @ '':'' @ zero_pad2 (second dt)"

text \<open>
  \<open>datetime.strptime(s, '%Y-%m-%d %H:%M:%S')\<close>, on the texts that \<open>strftime\<close> writes
  with this format. The parser demands exactly four digits for \<open>%Y\<close>, so of these
  texts it accepts those of nineteen characters and raises \<open>ValueError\<close> on the
  shorter ones, which \<open>strftime\<close> writes for a year below 1000. The program parses
  no other texts (it reads back what it has formatted itself), so the further
  spellings that the library's parser tolerates are not distinguished here from
  malformed ones. The fields go through the constructor, which checks their ranges.
\<close>

definition number :: "string \<Rightarrow> int" where
  "number s = foldl (\<lambda>a c. a * 10 + digit_val c) 0 s"

definition strptime :: "string \<Rightarrow> error + datetime" where
  "strptime s =
     (if length s = 19 \<and> s ! 4 = CHR ''-'' \<and> s ! 7 = CHR ''-'' \<and> s ! 10 = CHR '' ''
         \<and> s ! 13 = CHR '':'' \<and> s ! 16 = CHR '':''
         \<and> list_all is_digit (take 4 s @ take 2 (drop 5 s) @ take 2 (drop 8 s)
              @ take 2 (drop 11 s) @ take 2 (drop 14 s) @ take 2 (drop 17 s))
      then datetime_new (number (take 4 s)) (number (take 2 (drop 5 s)))
             (number (take 2 (drop 8 s))) (number (take 2 (drop 11 s)))
             (number (take 2 (drop 14 s))) (number (take 2 (drop 17 s))) 0
      else Inl ValueError)"

section \<open>The schedule calculator: \<open>calculate_next_reminder\<close>\<close>

text \<open>
  \<open>calculate_next_reminder\<close> reads the clock once (\<open>datetime.now()\<close>); the reading is
  the argument \<open>now\<close> here. \<open>calculate_next_time\<close> is the body up to the value of
  \<open>next_time\<close>, \<open>calculate_next_reminder\<close> formats it. Every schedule type other than
  \<open>daily\<close> and \<open>weekly\<close> takes the monthly branch, as in the source.
\<close>

definition calculate_next_time :: "string \<Rightarrow> string \<Rightarrow> datetime \<Rightarrow> error + datetime" where
  "calculate_next_time schedule_type schedule_value now =
     (if schedule_type = ''daily'' then
        (case parse_hour_minute schedule_value of
           Inl e \<Rightarrow> Inl e
         | Inr (h, mi) \<Rightarrow>
             (case replace now None None None (Some h) (Some mi) of
                Inl e \<Rightarrow> Inl e
              | Inr next_time \<Rightarrow>
                  if dt_le next_time now then plus_days_hours next_time 1 0
                  else Inr next_time))
      else if schedule_type = ''weekly'' then
        (case parse_day_time schedule_value of
           Inl e \<Rightarrow> Inl e
         | Inr (dow, h, mi) \<Rightarrow>
             (let days_ahead = dow - weekday now;
                  days_ahead = (if days_ahead \<le> 0 then days_ahead + 7 else days_ahead)
              in case plus_days_hours now days_ahead 0 of
                   Inl e \<Rightarrow> Inl e
                 | Inr next_time \<Rightarrow> replace next_time None None None (Some h) (Some mi)))
      else
        (case parse_day_time schedule_value of
           Inl e \<Rightarrow> Inl e
         | Inr (d, h, mi) \<Rightarrow>
             (case replace now None None (Some d) (Some h) (Some mi) of
                Inl e \<Rightarrow> Inl e
              | Inr next_time \<Rightarrow>
                  if dt_le next_time now then
                    (if month now = 12
                     then replace next_time (Some (year now + 1)) (Some 1) None None None
                     else replace next_time None (Some (month now + 1)) None None None)
                  else Inr next_time)))"

definition calculate_next_reminder :: "string \<Rightarrow> string \<Rightarrow> datetime \<Rightarrow> error + string" where
  "calculate_next_reminder schedule_type schedule_value now =
     (case calculate_next_time schedule_type schedule_value now of
        Inl e \<Rightarrow> Inl e
      | Inr next_time \<Rightarrow> Inr (strftime next_time))"

section \<open>The store, the scheduler and the gateway\<close>

text \<open>
  A row of the \<open>reminders\<close> table, with the fields of \<open>ReminderData\<close> (\<open>rid\<close> is
  the column \<open>id\<close>). The columns without \<open>NOT NULL\<close> are options. The table is the
  list of its rows in storage order; \<open>fetchone\<close> returns the first row of a result.
\<close>

record reminder =
  rid :: int
  user_id :: int
  channel_id :: int
  chore_name :: string
  schedule_type :: string
  schedule_value :: string
  next_reminder :: string
  confirmation_channel_id :: "int option"
  retry_count :: "int option"
  last_message_id :: "int option"
  verification_message_id :: "int option"

definition select_by_user_channel :: "reminder list \<Rightarrow> int \<Rightarrow> int \<Rightarrow> reminder list" where
  "select_by_user_channel rows uid cid =
     filter (\<lambda>r. user_id r = uid \<and> channel_id r = cid) rows"

definition fetchone :: "'a list \<Rightarrow> 'a option" where
  "fetchone rows = (case rows of [] \<Rightarrow> None | r # _ \<Rightarrow> Some r)"

text \<open>\<open>UPDATE reminders SET ... WHERE id = ?\<close>, followed by the commit.\<close>

definition update_where_id :: "(reminder \<Rightarrow> reminder) \<Rightarrow> int \<Rightarrow> reminder list \<Rightarrow> reminder list" where
  "update_where_id f i rows = map (\<lambda>r. if rid r = i then f r else r) rows"

text \<open>
  The scheduler's job store maps job ids to jobs. The ids \<open>f"reminder_{id}"\<close> and
  \<open>f"followup_{id}"\<close> are the two constructors of \<open>job_id\<close>. On the running scheduler
  \<open>add_job\<close> is called without \<open>replace_existing\<close>, so an id that is already in the
  store raises \<open>ConflictingIdError\<close>. \<open>remove_job\<close> is only called after \<open>get_job\<close> has
  found the job.
\<close>

datatype job_id = ReminderJob int | FollowupJob int

datatype job_func = SendReminder | SendFollowupReminder

record job =
  func :: job_func
  run_date :: datetime
  args :: int

type_synonym job_store = "job_id \<rightharpoonup> job"

definition get_job :: "job_store \<Rightarrow> job_id \<Rightarrow> job option" where
  "get_job js i = js i"

definition remove_job :: "job_store \<Rightarrow> job_id \<Rightarrow> job_store" where
  "remove_job js i = js(i := None)"

definition add_job :: "job_store \<Rightarrow> job_id \<Rightarrow> job \<Rightarrow> error + job_store" where
  "add_job js i j = (if js i \<noteq> None then Inl ConflictingIdError else Inr (js(i \<mapsto> j)))"

text \<open>
  What the bot sends: the kind of each message with the values it interpolates, the
  channel, the id that the gateway gives the message, and the reactions that the
  bot adds to it.
\<close>

datatype emoji = ThumbsUp | ThumbsDown | OtherEmoji string

datatype notice =
    PeerRoleNotFound
  | VerificationRequest int string
  | Postponed int string
  | PostponeError
  | Verified int int string
  | VerificationError
  | Rejection int int

record sent_message =
  to_channel :: int
  body :: notice
  sent_id :: int
  reactions :: "emoji list"

record bot_state =
  db :: "reminder list"
  jobs :: job_store
  outbox :: "sent_message list"
  log :: "error list"

text \<open>
  The surroundings of one call of the handler: the bot's own user id, the readings
  of the clock (\<open>clock env k\<close> is the \<open>k\<close>-th call of \<open>datetime.now()\<close> in the call)
  and the id that the gateway assigns to the \<open>n\<close>-th message sent. The gateway and
  the database are taken to answer: failures of the transport or of the storage,
  which the handler's \<open>except\<close> clauses would also catch, are outside this model.
\<close>

record environment =
  bot_user_id :: int
  clock :: "nat \<Rightarrow> datetime"
  new_message_id :: "nat \<Rightarrow> int"

record reaction_event =
  emoji :: emoji
  reactor_id :: int
  reactor_is_bot :: bool
  reactor_roles :: "string list"
  message_id :: int
  message_mentions :: "int list"
  message_author_id :: int
  message_channel_id :: int
  guild_roles :: "string list"

definition send :: "environment \<Rightarrow> int \<Rightarrow> notice \<Rightarrow> emoji list \<Rightarrow> bot_state \<Rightarrow> int \<times> bot_state" where
  "send env ch b rs s =
     (let i = new_message_id env (length (outbox s))
      in (i, s\<lparr>outbox := outbox s @ [\<lparr>to_channel = ch, body = b, sent_id = i, reactions = rs\<rparr>]\<rparr>))"

text \<open>An \<open>except\<close> clause of the handler: log the error, send the failure notice.\<close>

definition report_error :: "environment \<Rightarrow> int \<Rightarrow> notice \<Rightarrow> error \<Rightarrow> bot_state \<Rightarrow> bot_state" where
  "report_error env ch b e s = snd (send env ch b [] (s\<lparr>log := log s @ [e]\<rparr>))"

text \<open>\<open>str.lower()\<close> on code points below 256, and the test for the peer role.\<close>

definition lower_char :: "char \<Rightarrow> char" where
  "lower_char c =
     (let n = (of_char c :: int)
      in if (65 \<le> n \<and> n \<le> 90) \<or> (192 \<le> n \<and> n \<le> 214) \<or> (216 \<le> n \<and> n \<le> 222)
         then char_of (n + 32) else c)"

definition is_peer_verification :: "reaction_event \<Rightarrow> bool" where
  "is_peer_verification ev = list_ex (\<lambda>name. map lower_char name = ''peer'') (reactor_roles ev)"

section \<open>The reaction handler: \<open>on_reaction_add\<close>\<close>

text \<open>
  The four transitions of the handler, each the body of one \<open>try\<close> block, and then
  the handler itself. \<open>mentioned\<close> is \<open>message.mentions[0]\<close> and \<open>reminder\<close> the
  row that \<open>fetchone\<close> returned.
\<close>

text \<open>The assignee reacts with thumbs up: ask the peers.\<close>

definition self_report_done ::
  "environment \<Rightarrow> reaction_event \<Rightarrow> int \<Rightarrow> reminder \<Rightarrow> bot_state \<Rightarrow> bot_state" where
  "self_report_done env ev mentioned reminder s =
     (case find (\<lambda>name. name = ''Peer'') (guild_roles ev) of
        None \<Rightarrow> snd (send env (message_channel_id ev) PeerRoleNotFound [] s)
      | Some peer_role \<Rightarrow>
          (let (verification_msg, s1) =
                 send env (message_channel_id ev)
                   (VerificationRequest mentioned (chore_name reminder)) [ThumbsUp, ThumbsDown] s
           in s1\<lparr>db := update_where_id (\<lambda>r. r\<lparr>verification_message_id := Some verification_msg\<rparr>)
                          (rid reminder) (db s1)\<rparr>))"

text \<open>The assignee reacts with thumbs down: postpone by one hour.\<close>

definition self_report_postpone ::
  "environment \<Rightarrow> reaction_event \<Rightarrow> int \<Rightarrow> reminder \<Rightarrow> bot_state \<Rightarrow> bot_state" where
  "self_report_postpone env ev mentioned reminder s =
     (case plus_days_hours (clock env 0) 0 1 of
        Inl e \<Rightarrow> report_error env (message_channel_id ev) PostponeError e s
      | Inr t \<Rightarrow>
          (let next_text = strftime t;
               new_retry_count = (case retry_count reminder of None \<Rightarrow> 1 | Some c \<Rightarrow> c + 1);
               s1 = s\<lparr>db := update_where_id
                               (\<lambda>r. r\<lparr>next_reminder := next_text,
                                       retry_count := Some new_retry_count\<rparr>)
                               (rid reminder) (db s)\<rparr>
           in case strptime next_text of
                Inl e \<Rightarrow> report_error env (message_channel_id ev) PostponeError e s1
              | Inr run \<Rightarrow>
                  (case add_job (jobs s1) (ReminderJob (rid reminder))
                          \<lparr>func = SendReminder, run_date = run, args = rid reminder\<rparr> of
                     Inl e \<Rightarrow> report_error env (message_channel_id ev) PostponeError e s1
                   | Inr js \<Rightarrow>
                       snd (send env (message_channel_id ev) (Postponed mentioned next_text) []
                              (s1\<lparr>jobs := js\<rparr>)))))"

text \<open>A peer reacts with thumbs up on the verification message: next cycle.\<close>

definition peer_confirm ::
  "environment \<Rightarrow> reaction_event \<Rightarrow> int \<Rightarrow> reminder \<Rightarrow> bot_state \<Rightarrow> bot_state" where
  "peer_confirm env ev mentioned reminder s =
     (case calculate_next_reminder (schedule_type reminder) (schedule_value reminder)
             (clock env 0) of
        Inl e \<Rightarrow> report_error env (message_channel_id ev) VerificationError e s
      | Inr next_text \<Rightarrow>
          (let s1 = s\<lparr>db := update_where_id
                               (\<lambda>r. r\<lparr>next_reminder := next_text, retry_count := Some 0,
                                       verification_message_id := None\<rparr>)
                               (rid reminder) (db s)\<rparr>;
               job_id = ReminderJob (rid reminder);
               s2 = (if get_job (jobs s1) job_id \<noteq> None
                     then s1\<lparr>jobs := remove_job (jobs s1) job_id\<rparr> else s1)
           in case strptime next_text of
                Inl e \<Rightarrow> report_error env (message_channel_id ev) VerificationError e s2
              | Inr run \<Rightarrow>
                  (case add_job (jobs s2) job_id
                          \<lparr>func = SendReminder, run_date = run, args = rid reminder\<rparr> of
                     Inl e \<Rightarrow> report_error env (message_channel_id ev) VerificationError e s2
                   | Inr js \<Rightarrow>
                       snd (send env (message_channel_id ev)
                              (Verified mentioned (reactor_id ev) next_text) []
                              (s2\<lparr>jobs := js\<rparr>)))))"

text \<open>A peer reacts with thumbs down on the verification message: back to the assignee.\<close>

definition peer_reject ::
  "environment \<Rightarrow> reaction_event \<Rightarrow> int \<Rightarrow> reminder \<Rightarrow> bot_state \<Rightarrow> bot_state" where
  "peer_reject env ev mentioned reminder s =
     (let (rejection_msg, s0) =
            send env (message_channel_id ev) (Rejection mentioned (reactor_id ev)) [ThumbsUp] s
      in case plus_days_hours (clock env 0) 0 1 of
           Inl e \<Rightarrow> report_error env (message_channel_id ev) VerificationError e s0
         | Inr t \<Rightarrow>
             (let next_text = strftime t;
                  s1 = s0\<lparr>db := update_where_id
                                   (\<lambda>r. r\<lparr>next_reminder := next_text,
                                           verification_message_id := None,
                                           last_message_id := Some rejection_msg\<rparr>)
                                   (rid reminder) (db s0)\<rparr>;
                  job_id = ReminderJob (rid reminder);
                  s2 = (if get_job (jobs s1) job_id \<noteq> None
                        then s1\<lparr>jobs := remove_job (jobs s1) job_id\<rparr> else s1)
              in case strptime next_text of
                   Inl e \<Rightarrow> report_error env (message_channel_id ev) VerificationError e s2
                 | Inr run \<Rightarrow>
                     (case add_job (jobs s2) job_id
                             \<lparr>func = SendReminder, run_date = run, args = rid reminder\<rparr> of
                        Inl e \<Rightarrow> report_error env (message_channel_id ev) VerificationError e s2
                      | Inr js \<Rightarrow>
                          (let s3 = s2\<lparr>jobs := js\<rparr>
                           in case plus_days_hours (clock env 1) 0 1 of
                                Inl e \<Rightarrow>
                                  report_error env (message_channel_id ev) VerificationError e s3
                              | Inr follow_up_run \<Rightarrow>
                                  (case add_job (jobs s3) (FollowupJob (rid reminder))
                                          \<lparr>func = SendFollowupReminder, run_date = follow_up_run,
                                             args = rid reminder\<rparr> of
                                     Inl e \<Rightarrow>
                                       report_error env (message_channel_id ev)
                                         VerificationError e s3
                                   | Inr js' \<Rightarrow> s3\<lparr>jobs := js'\<rparr>)))))"

text \<open>
  The handler. The reactor is a guild member (it has roles). No branch of this model
  raises past its own \<open>except\<close> clause, so the outermost \<open>except\<close> is not reached.
\<close>

definition on_reaction_add :: "environment \<Rightarrow> reaction_event \<Rightarrow> bot_state \<Rightarrow> bot_state" where
  "on_reaction_add env ev s =
     (if reactor_is_bot ev then s
      else case message_mentions ev of
        [] \<Rightarrow> s
      | mentioned # others \<Rightarrow>
          if reactor_id ev = mentioned then
            (if message_author_id ev \<noteq> bot_user_id env then s
             else case fetchone (select_by_user_channel (db s) mentioned (message_channel_id ev)) of
                    None \<Rightarrow> s
                  | Some reminder \<Rightarrow>
                      if emoji ev = ThumbsUp then self_report_done env ev mentioned reminder s
                      else if emoji ev = ThumbsDown
                        then self_report_postpone env ev mentioned reminder s
                      else s)
          else if is_peer_verification ev then
            (case fetchone (select_by_user_channel (db s) mentioned (message_channel_id ev)) of
               None \<Rightarrow> s
             | Some reminder \<Rightarrow>
                 if verification_message_id reminder \<noteq> Some (message_id ev) then s
                 else if emoji ev = ThumbsUp then peer_confirm env ev mentioned reminder s
                 else if emoji ev = ThumbsDown then peer_reject env ev mentioned reminder s
                 else s)
          else s)"

text \<open>
  Following the spec's words (section 4.4), not the code, which stores no state: the
  logical state of a reminder is derived from its two message ids. A reminder with a
  recorded verification message awaits peer verification; otherwise one with a
  recorded reminder message awaits the self-report; otherwise it is idle.
\<close>

datatype lifecycle = Idle | AwaitingSelfReport | AwaitingPeerVerification

definition spec_state :: "reminder \<Rightarrow> lifecycle" where
  "spec_state r =
     (if verification_message_id r \<noteq> None then AwaitingPeerVerification
      else if last_message_id r \<noteq> None then AwaitingSelfReport
      else Idle)"

text \<open>The two notices that only the peer branch sends: the verdicts of a peer.\<close>

definition is_verdict :: "notice \<Rightarrow> bool" where
  "is_verdict b = (case b of Verified a p t \<Rightarrow> True | Rejection a p \<Rightarrow> True | _ \<Rightarrow> False)"

text \<open>
  A bound on what a self-report transition writes into a row: the id and the
  recorded reminder message stay, and a recorded verification message is never
  cleared.
\<close>

definition self_report_write :: "(reminder \<Rightarrow> reminder) \<Rightarrow> bool" where
  "self_report_write f =
     (\<forall>x. rid (f x) = rid x \<and> last_message_id (f x) = last_message_id x
          \<and> (verification_message_id x \<noteq> None \<longrightarrow> verification_message_id (f x) \<noteq> None))"

section \<open>A concrete scene\<close>

text \<open>
  The inputs of the concrete runs further down: Monday 2024-01-01 at 10:00:00 as
  every reading of the clock, the bot with user id 99, the assignee with user id 7
  in channel 5 with the reminder "dishes" (row 1, reminder message 10), and a second
  reminder "laundry" of the same assignee in the same channel (row 2, reminder
  message 11). Messages sent by the bot get the ids 1000, 1001, ...
\<close>

definition monday_ten :: datetime where
  "monday_ten = \<lparr>year = 2024, month = 1, day = 1, hour = 10, minute = 0, second = 0,
                  microsecond = 0\<rparr>"

definition half_past_ten :: datetime where
  "half_past_ten = \<lparr>year = 2024, month = 1, day = 1, hour = 10, minute = 30, second = 0,
                     microsecond = 0\<rparr>"

definition eleven :: datetime where
  "eleven = \<lparr>year = 2024, month = 1, day = 1, hour = 11, minute = 0, second = 0,
              microsecond = 0\<rparr>"

definition scene_env :: environment where
  "scene_env = \<lparr>bot_user_id = 99, clock = (\<lambda>k. monday_ten),
                 new_message_id = (\<lambda>n. 1000 + int n)\<rparr>"

definition dishes :: reminder where
  "dishes = \<lparr>rid = 1, user_id = 7, channel_id = 5, chore_name = ''dishes'',
              schedule_type = ''daily'', schedule_value = ''18:00'',
              next_reminder = ''2024-01-01 09:00:00'', confirmation_channel_id = None,
              retry_count = Some 0, last_message_id = Some 10,
              verification_message_id = None\<rparr>"

definition laundry :: reminder where
  "laundry = \<lparr>rid = 2, user_id = 7, channel_id = 5, chore_name = ''laundry'',
               schedule_type = ''weekly'', schedule_value = ''2,19:30'',
               next_reminder = ''2024-01-01 09:30:00'', confirmation_channel_id = None,
               retry_count = Some 0, last_message_id = Some 11,
               verification_message_id = None\<rparr>"

text \<open>A reaction of the assignee (user 7) on a message of the bot that mentions them.\<close>

definition assignee_reacts :: "emoji \<Rightarrow> int \<Rightarrow> reaction_event" where
  "assignee_reacts e m =
     \<lparr>emoji = e, reactor_id = 7, reactor_is_bot = False, reactor_roles = [],
      message_id = m, message_mentions = [7], message_author_id = 99,
      message_channel_id = 5, guild_roles = [''Peer'']\<rparr>"

text \<open>A reaction of user 8, who holds the role "Peer", on such a message.\<close>

definition peer_reacts :: "emoji \<Rightarrow> int \<Rightarrow> reaction_event" where
  "peer_reacts e m =
     \<lparr>emoji = e, reactor_id = 8, reactor_is_bot = False, reactor_roles = [''Peer''],
      message_id = m, message_mentions = [7], message_author_id = 99,
      message_channel_id = 5, guild_roles = [''Peer'']\<rparr>"

text \<open>The same surroundings half an hour earlier, at 09:30:00.\<close>

definition half_past_nine :: datetime where
  "half_past_nine = \<lparr>year = 2024, month = 1, day = 1, hour = 9, minute = 30, second = 0,
                      microsecond = 0\<rparr>"

definition earlier_env :: environment where
  "earlier_env = \<lparr>bot_user_id = 99, clock = (\<lambda>k. half_past_nine),
                   new_message_id = (\<lambda>n. 1000 + int n)\<rparr>"

text \<open>"dishes" awaits the self-report on message 10; no job is pending.\<close>

definition awaiting_self :: bot_state where
  "awaiting_self = \<lparr>db = [dishes], jobs = Map.empty, outbox = [], log = []\<rparr>"

text \<open>"dishes" awaits peer verification on message 20; no job is pending.\<close>

definition awaiting_peer :: bot_state where
  "awaiting_peer =
     \<lparr>db = [dishes\<lparr>verification_message_id := Some 20\<rparr>], jobs = Map.empty,
      outbox = [], log = []\<rparr>"

text \<open>Both reminders of the assignee await the self-report; no job is pending.\<close>

definition two_reminders :: bot_state where
  "two_reminders = \<lparr>db = [dishes, laundry], jobs = Map.empty, outbox = [], log = []\<rparr>"

text \<open>
  The state that the handler itself leaves when the assignee postpones "dishes" at
  09:30, and the state it leaves when a peer rejects "dishes" at 09:30 and the
  assignee then claims completion again on reminder message 10.
\<close>

definition postponed_once :: bot_state where
  "postponed_once = on_reaction_add earlier_env (assignee_reacts ThumbsDown 10) awaiting_self"

definition rejected_then_claimed :: bot_state where
  "rejected_then_claimed =
     on_reaction_add earlier_env (assignee_reacts ThumbsUp 10)
       (on_reaction_add earlier_env (peer_reacts ThumbsDown 20) awaiting_peer)"

section \<open>Proofs\<close>

subsection \<open>Facts about the calendar\<close>

lemma days_in_month_bounds: "28 \<le> days_in_month y m \<and> days_in_month y m \<le> 31"
  by (simp add: days_in_month_def)

lemma div_step:
  assumes "0 < n"
  shows "(y::int) div n = (y - 1) div n + (if y mod n = 0 then 1 else 0)"
proof -
  define q where "q = (y - 1) div n"
  define r where "r = (y - 1) mod n"
  have y: "y = q * n + (r + 1)" by (simp add: q_def r_def)
  have r: "0 \<le> r" "r < n" using assms by (simp_all add: r_def)
  have goal: "y div n = q + (if y mod n = 0 then 1 else 0)"
  proof (cases "r + 1 = n")
    case True
    then have e: "y = (q + 1) * n" using y by (simp add: algebra_simps)
    have "y div n = q + 1" "y mod n = 0" using assms by (simp_all add: e)
    then show ?thesis by simp
  next
    case False
    with r have lt: "r + 1 < n" by simp
    have "y div n = q" using r lt assms by (simp add: y div_pos_pos_trivial)
    moreover have "y mod n = r + 1" using r lt
      by (simp add: y mod_pos_pos_trivial)
    ultimately show ?thesis using r by simp
  qed
  then show ?thesis by (simp add: q_def)
qed

lemma days_before_year_Suc:
  "days_before_year (y + 1) = days_before_year y + (if is_leap y then 366 else 365)"
proof -
  have a: "y div 4 = (y - 1) div 4 + (if y mod 4 = 0 then 1 else 0)"
    by (rule div_step) simp
  have b: "y div 100 = (y - 1) div 100 + (if y mod 100 = 0 then 1 else 0)"
    by (rule div_step) simp
  have c: "y div 400 = (y - 1) div 400 + (if y mod 400 = 0 then 1 else 0)"
    by (rule div_step) simp
  have "(4::int) dvd 100" "(100::int) dvd 400" by simp_all
  then have d: "y mod 100 = 0 \<Longrightarrow> y mod 4 = 0" and e: "y mod 400 = 0 \<Longrightarrow> y mod 100 = 0"
    by (meson dvd_trans mod_0_imp_dvd dvd_imp_mod_0)+
  have "days_before_year (y + 1) = y * 365 + y div 4 - y div 100 + y div 400"
    by (simp add: days_before_year_def)
  also have "\<dots> = days_before_year y + (if is_leap y then 366 else 365)"
    unfolding a b c days_before_year_def is_leap_def using d e
    by (cases "y mod 4 = 0"; cases "y mod 100 = 0"; cases "y mod 400 = 0")
       (simp_all add: algebra_simps)
  finally show ?thesis .
qed

lemma days_before_month_Suc:
  "1 \<le> m \<Longrightarrow> m < 12 \<Longrightarrow>
     days_before_month y (m + 1) = days_before_month y m + days_in_month y m"
proof -
  assume "1 \<le> m" "m < 12"
  then have "m = 1 \<or> m = 2 \<or> m = 3 \<or> m = 4 \<or> m = 5 \<or> m = 6 \<or> m = 7 \<or> m = 8 \<or> m = 9
             \<or> m = 10 \<or> m = 11"
    by arith
  then show ?thesis
    by (elim disjE) (simp_all add: days_before_month_def days_in_month_def)
qed

lemma toordinal_last_day:
  "year dt = 9999 \<Longrightarrow> month dt = 12 \<Longrightarrow> day dt = 31 \<Longrightarrow> toordinal dt = MAXORDINAL"
  by (simp add: toordinal_def MAXORDINAL_def days_before_year_def days_before_month_def is_leap_def)

lemma toordinal_first_day:
  "year dt = 1 \<Longrightarrow> month dt = 1 \<Longrightarrow> day dt = 1 \<Longrightarrow> toordinal dt = 1"
  by (simp add: toordinal_def days_before_year_def days_before_month_def)

lemma year_end: "days_before_month y 12 + 31 = (if is_leap y then 366 else 365)"
  by (simp add: days_before_month_def)

lemma toordinal_tomorrow:
  assumes "valid_date dt" and "toordinal dt < MAXORDINAL"
  shows "toordinal (tomorrow dt) = toordinal dt + 1"
proof (cases "day dt < days_in_month (year dt) (month dt)")
  case True
  then show ?thesis by (simp add: tomorrow_def toordinal_def)
next
  case False
  with assms(1) have d: "day dt = days_in_month (year dt) (month dt)"
    by (simp add: valid_date_def)
  show ?thesis
  proof (cases "month dt < 12")
    case True
    with assms(1) d show ?thesis
      by (simp add: tomorrow_def toordinal_def valid_date_def days_before_month_Suc)
  next
    case False
    with assms(1) have m: "month dt = 12" by (simp add: valid_date_def)
    then have d31: "day dt = 31" using d by (simp add: days_in_month_def)
    have "toordinal (tomorrow dt) = days_before_year (year dt + 1) + 1"
      using m d31 by (simp add: tomorrow_def toordinal_def days_in_month_def days_before_month_def)
    also have "\<dots> = days_before_year (year dt) + (days_before_month (year dt) 12 + 31) + 1"
      by (simp only: days_before_year_Suc year_end)
    also have "\<dots> = toordinal dt + 1"
      using m d31 by (simp add: toordinal_def)
    finally show ?thesis .
  qed
qed

lemma valid_date_tomorrow:
  assumes "valid_date dt" and "toordinal dt < MAXORDINAL"
  shows "valid_date (tomorrow dt)"
proof -
  have last: "\<not> (year dt = 9999 \<and> month dt = 12 \<and> day dt = 31)"
    using assms(2) toordinal_last_day [of dt] by auto
  have dec: "month dt = 12 \<Longrightarrow> days_in_month (year dt) (month dt) = 31"
    by (simp add: days_in_month_def)
  show ?thesis
  proof (cases "day dt < days_in_month (year dt) (month dt)")
    case True
    with assms(1) show ?thesis by (simp add: tomorrow_def valid_date_def)
  next
    case False
    with assms(1) have d: "day dt = days_in_month (year dt) (month dt)"
      by (simp add: valid_date_def)
    show ?thesis
    proof (cases "month dt < 12")
      case True
      with assms(1) d days_in_month_bounds [of "year dt" "month dt + 1"] show ?thesis
        by (simp add: tomorrow_def valid_date_def)
    next
      case False
      with assms(1) have m: "month dt = 12" by (simp add: valid_date_def)
      with d dec last have "year dt \<noteq> 9999" by simp
      with assms(1) m d show ?thesis
        by (simp add: tomorrow_def valid_date_def days_in_month_def)
    qed
  qed
qed

lemma days_before_month_pred:
  "1 < m \<Longrightarrow> m \<le> 12 \<Longrightarrow>
     days_before_month y m = days_before_month y (m - 1) + days_in_month y (m - 1)"
  using days_before_month_Suc [of "m - 1" y] by simp

lemma toordinal_yesterday:
  assumes "valid_date dt" and "1 < toordinal dt"
  shows "toordinal (yesterday dt) = toordinal dt - 1"
proof (cases "1 < day dt")
  case True
  then show ?thesis by (simp add: yesterday_def toordinal_def)
next
  case False
  with assms(1) have d: "day dt = 1" by (simp add: valid_date_def)
  show ?thesis
  proof (cases "1 < month dt")
    case True
    with assms(1) d show ?thesis
      by (simp add: yesterday_def toordinal_def valid_date_def days_before_month_pred)
  next
    case False
    with assms(1) have m: "month dt = 1" by (simp add: valid_date_def)
    have "days_before_year (year dt - 1 + 1)
            = days_before_year (year dt - 1) + (days_before_month (year dt - 1) 12 + 31)"
      by (simp only: days_before_year_Suc year_end)
    then have "days_before_year (year dt)
            = days_before_year (year dt - 1) + days_before_month (year dt - 1) 12 + 31"
      by simp
    then show ?thesis
      using m d by (simp add: yesterday_def toordinal_def days_before_month_def)
  qed
qed

lemma valid_date_yesterday:
  assumes "valid_date dt" and "1 < toordinal dt"
  shows "valid_date (yesterday dt)"
proof -
  have first: "\<not> (year dt = 1 \<and> month dt = 1 \<and> day dt = 1)"
    using assms(2) toordinal_first_day [of dt] by auto
  show ?thesis
  proof (cases "1 < day dt")
    case True
    with assms(1) show ?thesis by (simp add: yesterday_def valid_date_def)
  next
    case False
    with assms(1) have d: "day dt = 1" by (simp add: valid_date_def)
    show ?thesis
    proof (cases "1 < month dt")
      case True
      with assms(1) d days_in_month_bounds [of "year dt" "month dt - 1"] show ?thesis
        by (simp add: yesterday_def valid_date_def)
    next
      case False
      with assms(1) have m: "month dt = 1" by (simp add: valid_date_def)
      with d first have "year dt \<noteq> 1" by simp
      with assms(1) m d show ?thesis
        by (simp add: yesterday_def valid_date_def days_in_month_def)
    qed
  qed
qed

lemma days_later_ord:
  "valid_date dt \<Longrightarrow> toordinal dt + int n \<le> MAXORDINAL \<Longrightarrow>
     toordinal (days_later n dt) = toordinal dt + int n \<and> valid_date (days_later n dt)"
proof (induction n arbitrary: dt)
  case 0
  then show ?case by simp
next
  case (Suc n)
  from Suc.prems have lt: "toordinal dt < MAXORDINAL" by simp
  have "toordinal (tomorrow dt) + int n \<le> MAXORDINAL"
    using Suc.prems lt by (simp add: toordinal_tomorrow)
  with Suc.IH [of "tomorrow dt"] Suc.prems lt show ?case
    by (simp add: toordinal_tomorrow valid_date_tomorrow)
qed

lemma days_earlier_ord:
  "valid_date dt \<Longrightarrow> 0 < toordinal dt - int n \<Longrightarrow>
     toordinal (days_earlier n dt) = toordinal dt - int n \<and> valid_date (days_earlier n dt)"
proof (induction n arbitrary: dt)
  case 0
  then show ?case by simp
next
  case (Suc n)
  from Suc.prems have lt: "1 < toordinal dt" by simp
  have "0 < toordinal (yesterday dt) - int n"
    using Suc.prems lt by (simp add: toordinal_yesterday)
  with Suc.IH [of "yesterday dt"] Suc.prems lt show ?case
    by (simp add: toordinal_yesterday valid_date_yesterday)
qed

lemma toordinal_shift_days:
  assumes "valid_date dt" and "0 < toordinal dt + k" and "toordinal dt + k \<le> MAXORDINAL"
  shows "toordinal (shift_days dt k) = toordinal dt + k" and "valid_date (shift_days dt k)"
  using assms days_later_ord [of dt "nat k"] days_earlier_ord [of dt "nat (- k)"]
  by (simp_all add: shift_days_def)

lemma tomorrow_time [simp]:
  "hour (tomorrow dt) = hour dt" "minute (tomorrow dt) = minute dt"
  "second (tomorrow dt) = second dt" "microsecond (tomorrow dt) = microsecond dt"
  by (simp_all add: tomorrow_def)

lemma yesterday_time [simp]:
  "hour (yesterday dt) = hour dt" "minute (yesterday dt) = minute dt"
  "second (yesterday dt) = second dt" "microsecond (yesterday dt) = microsecond dt"
  by (simp_all add: yesterday_def)

lemma days_later_time [simp]:
  "hour (days_later n dt) = hour dt" "minute (days_later n dt) = minute dt"
  "second (days_later n dt) = second dt" "microsecond (days_later n dt) = microsecond dt"
  by (induction n arbitrary: dt) simp_all

lemma days_earlier_time [simp]:
  "hour (days_earlier n dt) = hour dt" "minute (days_earlier n dt) = minute dt"
  "second (days_earlier n dt) = second dt" "microsecond (days_earlier n dt) = microsecond dt"
  by (induction n arbitrary: dt) simp_all

lemma shift_days_time [simp]:
  "hour (shift_days dt k) = hour dt" "minute (shift_days dt k) = minute dt"
  "second (shift_days dt k) = second dt" "microsecond (shift_days dt k) = microsecond dt"
  by (simp_all add: shift_days_def)

lemma days_before_year_nonneg: "1 \<le> y \<Longrightarrow> 0 \<le> days_before_year y"
proof -
  assume "1 \<le> y"
  then have x: "0 \<le> y - 1" by simp
  have "(y - 1) div 100 \<le> (y - 1) div 4"
    using x by (intro zdiv_mono2) simp_all
  moreover have "0 \<le> (y - 1) div 400" using x by simp
  moreover have "0 \<le> (y - 1) * 365" using x by simp
  ultimately show ?thesis unfolding days_before_year_def by linarith
qed

lemma toordinal_pos: "valid_date dt \<Longrightarrow> 1 \<le> toordinal dt"
proof -
  assume v: "valid_date dt"
  then have "0 \<le> days_before_year (year dt)"
    by (simp add: valid_date_def days_before_year_nonneg)
  moreover have "0 \<le> days_before_month (year dt) (month dt)"
    by (simp add: days_before_month_def)
  moreover have "1 \<le> day dt" using v by (simp add: valid_date_def)
  ultimately show ?thesis by (simp add: toordinal_def)
qed

lemma toordinal_time_update [simp]:
  "toordinal (dt\<lparr>hour := h\<rparr>) = toordinal dt" "toordinal (dt\<lparr>minute := mi\<rparr>) = toordinal dt"
  "toordinal (dt\<lparr>second := s\<rparr>) = toordinal dt" "toordinal (dt\<lparr>microsecond := us\<rparr>) = toordinal dt"
  by (simp_all add: toordinal_def)

lemma weekday_range: "0 \<le> weekday dt \<and> weekday dt \<le> 6"
  by (simp add: weekday_def)

lemma weekday_target:
  assumes "0 \<le> d" "d \<le> 6"
  shows "(x + (d - (x + 6) mod 7) + 6) mod 7 = (d::int)"
    and "(x + (d - (x + 6) mod 7 + 7) + 6) mod 7 = (d::int)"
proof -
  have e: "(x + 6) div 7 * 7 + (x + 6) mod 7 = x + 6"
    by (rule div_mult_mod_eq)
  have a: "x + (d - (x + 6) mod 7) + 6 = d + (x + 6) div 7 * 7"
    using e by linarith
  have b: "x + (d - (x + 6) mod 7 + 7) + 6 = d + ((x + 6) div 7 + 1) * 7"
    using e by (simp add: algebra_simps)
  have g: "(d + q * 7) mod 7 = d" for q
    using assms by simp
  show "(x + (d - (x + 6) mod 7) + 6) mod 7 = d"
    by (simp only: a g)
  show "(x + (d - (x + 6) mod 7 + 7) + 6) mod 7 = d"
    by (simp only: b g)
qed

lemma same_date_same_ordinal:
  "year a = year b \<Longrightarrow> month a = month b \<Longrightarrow> day a = day b \<Longrightarrow> toordinal a = toordinal b"
  by (simp add: toordinal_def)

lemma valid_date_time_update [simp]:
  "valid_date (dt\<lparr>hour := h\<rparr>) = valid_date dt" "valid_date (dt\<lparr>minute := mi\<rparr>) = valid_date dt"
  "valid_date (dt\<lparr>second := s\<rparr>) = valid_date dt" "valid_date (dt\<lparr>microsecond := us\<rparr>) = valid_date dt"
  by (simp_all add: valid_date_def)

lemma valid_datetime_shift_days:
  assumes "valid_datetime dt" and "0 < toordinal dt + k" and "toordinal dt + k \<le> MAXORDINAL"
  shows "valid_datetime (shift_days dt k)"
  using assms toordinal_shift_days(2) [of dt k]
  by (simp add: valid_datetime_def valid_time_def)

lemma valid_datetime_tomorrow:
  "valid_datetime dt \<Longrightarrow> toordinal dt < MAXORDINAL \<Longrightarrow> valid_datetime (tomorrow dt)"
  by (simp add: valid_datetime_def valid_time_def valid_date_tomorrow)

subsection \<open>Adding a timedelta moves the position on the time line by its length\<close>

lemma divmod_unique:
  "0 \<le> r \<Longrightarrow> r < n \<Longrightarrow> (q * n + r) div n = (q::int) \<and> (q * n + r) mod n = r"
  by simp

lemma time_of_day_fields:
  assumes "0 \<le> h" "h \<le> 23" "0 \<le> m" "m \<le> 59" "0 \<le> s" "s \<le> (59::int)"
  shows "(h * 3600 + m * 60 + s) div 86400 = 0"
    and "(h * 3600 + m * 60 + s) mod 86400 div 3600 = h"
    and "(h * 3600 + m * 60 + s) mod 86400 mod 3600 div 60 = m"
    and "(h * 3600 + m * 60 + s) mod 86400 mod 60 = s"
proof -
  let ?t = "h * 3600 + m * 60 + s"
  have r: "0 \<le> ?t" "?t < 86400" using assms by simp_all
  have a: "?t mod 86400 = ?t" using r by simp
  show "?t div 86400 = 0" using r by simp
  have b: "0 \<le> m * 60 + s" "m * 60 + s < 3600" using assms by simp_all
  have d: "?t div 3600 = h" "?t mod 3600 = m * 60 + s"
    using divmod_unique [OF b, of h] by (simp_all add: add.assoc)
  show "?t mod 86400 div 3600 = h" by (simp only: a d)
  have e: "(m * 60 + s) div 60 = m" "(m * 60 + s) mod 60 = s"
    using divmod_unique [of s 60 m] assms by simp_all
  show "?t mod 86400 mod 3600 div 60 = m" by (simp only: a d e)
  have "?t mod 60 = s"
    using divmod_unique [of s 60 "h * 60 + m"] assms by (simp add: algebra_simps)
  then show "?t mod 86400 mod 60 = s" by (simp only: a)
qed

lemma plus_days:
  assumes "valid_datetime dt" and "- 999999999 \<le> k" and "k \<le> 999999999"
  shows "plus_days_hours dt k 0 =
           (if 0 < toordinal dt + k \<and> toordinal dt + k \<le> MAXORDINAL
            then Inr (shift_days dt k) else Inl OverflowError)"
proof -
  have t: "0 \<le> hour dt" "hour dt \<le> 23" "0 \<le> minute dt" "minute dt \<le> 59"
    "0 \<le> second dt" "second dt \<le> 59" "0 \<le> microsecond dt" "microsecond dt < 1000000"
    using assms(1) by (simp_all add: valid_datetime_def valid_time_def)
  have e: "(shift_days dt k)\<lparr>hour := hour dt, minute := minute dt, second := second dt,
             microsecond := microsecond dt\<rparr> = shift_days dt k"
    by (rule datetime.equality) simp_all
  have us: "microsecond dt div 1000000 = 0" "microsecond dt mod 1000000 = microsecond dt"
    using t by simp_all
  show ?thesis
    using assms(2,3)
    by (simp add: plus_days_hours_def timedelta_new_def plus_timedelta_def Let_def
        seconds_of_day_def us time_of_day_fields [OF t(1-6)] e)
qed

lemma time_fields_in_range:
  assumes "0 \<le> r" "r < (86400::int)"
  shows "0 \<le> r div 3600" "r div 3600 \<le> 23" "0 \<le> r mod 3600 div 60" "r mod 3600 div 60 \<le> 59"
    "0 \<le> r mod 60" "r mod 60 \<le> 59"
proof -
  show "0 \<le> r div 3600" using assms by simp
  have "r div 3600 < 24" using assms by (simp add: div_less_iff_less_mult)
  then show "r div 3600 \<le> 23" by simp
  show "0 \<le> r mod 3600 div 60" by simp
  have "r mod 3600 < 3600" by simp
  then have "r mod 3600 div 60 < 60" by (simp add: div_less_iff_less_mult)
  then show "r mod 3600 div 60 \<le> 59" by simp
  show "0 \<le> r mod 60" by simp
  have "r mod 60 < 60" by simp
  then show "r mod 60 \<le> 59" by simp
qed

lemma plus_timedelta_valid:
  assumes "valid_datetime dt" and "plus_timedelta dt td = Inr t"
  shows "valid_datetime t"
proof -
  define us where "us = microsecond dt + td_microseconds td"
  define s where "s = seconds_of_day dt + td_seconds td + us div 1000000"
  define k where "k = td_days td + s div 86400"
  define r where "r = s mod 86400"
  define t' where "t' = (shift_days dt k)\<lparr>hour := r div 3600, minute := r mod 3600 div 60,
                  second := r mod 60, microsecond := us mod 1000000\<rparr>"
  have eq: "plus_timedelta dt td =
              (if 0 < toordinal dt + k \<and> toordinal dt + k \<le> MAXORDINAL then Inr t'
               else Inl OverflowError)"
    by (simp only: plus_timedelta_def Let_def us_def s_def k_def r_def t'_def)
  have g: "0 < toordinal dt + k \<and> toordinal dt + k \<le> MAXORDINAL"
  proof (rule ccontr)
    assume "\<not> ?thesis"
    with eq assms(2) show False by simp
  qed
  with eq assms(2) have t: "t = t'" by simp
  have vd: "valid_date t'"
    using toordinal_shift_days(2) [of dt k] assms(1) g by (simp add: valid_datetime_def t'_def)
  have r: "0 \<le> r" "r < 86400" by (simp_all add: r_def)
  have u: "0 \<le> us mod 1000000" "us mod 1000000 \<le> 999999"
  proof -
    show "0 \<le> us mod 1000000" by simp
    have "us mod 1000000 < 1000000" by simp
    then show "us mod 1000000 \<le> 999999" by simp
  qed
  have f: "hour t' = r div 3600" "minute t' = r mod 3600 div 60" "second t' = r mod 60"
    "microsecond t' = us mod 1000000"
    by (simp_all add: t'_def)
  have "valid_time t'"
    unfolding valid_time_def f using time_fields_in_range [OF r] u by blast
  with vd show ?thesis
    by (simp add: t valid_datetime_def)
qed

lemma plus_days_hours_valid:
  "valid_datetime dt \<Longrightarrow> plus_days_hours dt d h = Inr t \<Longrightarrow> valid_datetime t"
  by (auto simp: plus_days_hours_def plus_timedelta_valid split: sum.splits)

lemma seconds_recomposed:
  "r div 3600 * 3600 + r mod 3600 div 60 * 60 + r mod 60 = (r::int)"
proof -
  define a where "a = r div 3600"
  define b where "b = r mod 3600"
  define c where "c = b div 60"
  define d where "d = b mod 60"
  have e1: "r = 3600 * a + b" by (simp add: a_def b_def)
  have e2: "b = 60 * c + d" by (simp add: c_def d_def)
  have "(60::int) dvd 3600" by simp
  then have e3: "r mod 60 = d" unfolding d_def b_def by (simp add: mod_mod_cancel)
  have "a * 3600 + c * 60 + d = r" using e1 e2 by simp
  then show ?thesis by (simp only: a_def [symmetric] b_def [symmetric] c_def [symmetric] e3)
qed

lemma to_micro_truncated:
  "to_micro (dt\<lparr>microsecond := 0\<rparr>)
     = (toordinal dt * 86400 + hour dt * 3600 + minute dt * 60 + second dt) * 1000000"
  by (simp add: to_micro_def seconds_of_day_def)

lemma to_micro_expand:
  "to_micro dt
     = (toordinal dt * 86400 + hour dt * 3600 + minute dt * 60 + second dt) * 1000000
       + microsecond dt"
  by (simp add: to_micro_def seconds_of_day_def)

lemma to_micro_plus_timedelta:
  assumes "valid_datetime dt" and "plus_timedelta dt td = Inr t"
  shows "to_micro t
           = to_micro dt + (td_days td * 86400 + td_seconds td) * 1000000 + td_microseconds td"
proof -
  define us where "us = microsecond dt + td_microseconds td"
  define s where "s = seconds_of_day dt + td_seconds td + us div 1000000"
  define k where "k = td_days td + s div 86400"
  define r where "r = s mod 86400"
  define t' where "t' = (shift_days dt k)\<lparr>hour := r div 3600, minute := r mod 3600 div 60,
                  second := r mod 60, microsecond := us mod 1000000\<rparr>"
  have eq: "plus_timedelta dt td =
              (if 0 < toordinal dt + k \<and> toordinal dt + k \<le> MAXORDINAL then Inr t'
               else Inl OverflowError)"
    by (simp only: plus_timedelta_def Let_def us_def s_def k_def r_def t'_def)
  have g: "0 < toordinal dt + k \<and> toordinal dt + k \<le> MAXORDINAL"
  proof (rule ccontr)
    assume "\<not> ?thesis"
    with eq assms(2) show False by simp
  qed
  with eq assms(2) have t: "t = t'" by simp
  have o: "toordinal t' = toordinal dt + k"
    using toordinal_shift_days(1) [of dt k] assms(1) g by (simp add: valid_datetime_def t'_def)
  have sd: "seconds_of_day t' = r"
    using seconds_recomposed [of r] by (simp add: seconds_of_day_def t'_def)
  have mu: "microsecond t' = us mod 1000000" by (simp add: t'_def)
  define q where "q = s div 86400"
  define uq where "uq = us div 1000000"
  define ur where "ur = us mod 1000000"
  have e1: "s = q * 86400 + r" by (simp add: q_def r_def)
  have e2: "us = uq * 1000000 + ur" by (simp add: uq_def ur_def)
  have e3: "s = seconds_of_day dt + td_seconds td + uq" by (simp add: s_def uq_def)
  have e4: "k = td_days td + q" by (simp add: k_def q_def)
  have "to_micro t' = ((toordinal dt + k) * 86400 + r) * 1000000 + ur"
    by (simp add: to_micro_def o sd mu ur_def)
  also have "\<dots> = ((toordinal dt + td_days td) * 86400 + s) * 1000000 + ur"
    by (simp add: e4 e1 algebra_simps)
  also have "\<dots> = ((toordinal dt + td_days td) * 86400 + seconds_of_day dt + td_seconds td)
                      * 1000000 + us"
    by (simp add: e3 e2 algebra_simps)
  also have "\<dots> = to_micro dt + (td_days td * 86400 + td_seconds td) * 1000000
                      + td_microseconds td"
    by (simp add: to_micro_def us_def algebra_simps)
  finally show ?thesis by (simp add: t)
qed

lemma plus_one_hour:
  assumes "valid_datetime now" and "plus_days_hours now 0 1 = Inr t"
  shows "to_micro t = to_micro now + 3600000000" and "valid_datetime t"
proof -
  have td: "timedelta_new 0 1 = Inr \<lparr>td_days = 0, td_seconds = 3600, td_microseconds = 0\<rparr>"
    by (simp add: timedelta_new_def)
  with assms(2) have p: "plus_timedelta now \<lparr>td_days = 0, td_seconds = 3600, td_microseconds = 0\<rparr>
                           = Inr t"
    by (simp add: plus_days_hours_def)
  show "to_micro t = to_micro now + 3600000000"
    using to_micro_plus_timedelta [OF assms(1) p] by simp
  show "valid_datetime t"
    by (rule plus_days_hours_valid [OF assms])
qed

subsection \<open>The comparison of datetimes is the order of the time line\<close>

lemma days_before_year_add:
  "days_before_year y + 365 * int n \<le> days_before_year (y + int n)"
proof (induction n)
  case 0
  then show ?case by simp
next
  case (Suc n)
  have s: "y + int (Suc n) = y + int n + 1" by simp
  have "days_before_year (y + int (Suc n)) \<ge> days_before_year (y + int n) + 365"
    unfolding s by (simp add: days_before_year_Suc)
  with Suc show ?case by simp
qed

lemma days_before_year_mono: "y \<le> y' \<Longrightarrow> days_before_year y \<le> days_before_year y'"
  using days_before_year_add [of y "nat (y' - y)"] by simp

lemma days_before_month_add:
  "1 \<le> m \<Longrightarrow> m + int n \<le> 12 \<Longrightarrow> days_before_month y m \<le> days_before_month y (m + int n)"
proof (induction n)
  case 0
  then show ?case by simp
next
  case (Suc n)
  have s: "m + int (Suc n) = m + int n + 1" by simp
  have e: "days_before_month y (m + int (Suc n))
          = days_before_month y (m + int n) + days_in_month y (m + int n)"
    unfolding s using Suc.prems by (intro days_before_month_Suc) simp_all
  have p: "0 \<le> days_in_month y (m + int n)"
    using days_in_month_bounds [of y "m + int n"] by simp
  have "days_before_month y m \<le> days_before_month y (m + int n)"
    using Suc by simp
  with e p show ?case by linarith
qed

lemma days_before_month_mono:
  assumes "1 \<le> m" "m \<le> m'" "m' \<le> 12"
  shows "days_before_month y m \<le> days_before_month y m'"
  using days_before_month_add [of m "nat (m' - m)" y] assms by simp

lemma days_before_month_nonneg: "0 \<le> days_before_month y m"
  by (simp add: days_before_month_def)

lemma month_end_before_next:
  assumes "1 \<le> m" "m < m'" "m' \<le> 12"
  shows "days_before_month y m + days_in_month y m \<le> days_before_month y m'"
proof -
  have "days_before_month y m + days_in_month y m = days_before_month y (m + 1)"
    using assms by (simp add: days_before_month_Suc)
  also have "\<dots> \<le> days_before_month y m'"
    using assms by (intro days_before_month_mono) simp_all
  finally show ?thesis .
qed

lemma day_of_year_le:
  assumes "valid_date dt"
  shows "days_before_month (year dt) (month dt) + day dt
           \<le> (if is_leap (year dt) then 366 else 365)"
proof -
  have m: "1 \<le> month dt" "month dt \<le> 12" and d: "day dt \<le> days_in_month (year dt) (month dt)"
    using assms by (simp_all add: valid_date_def)
  have "days_before_month (year dt) (month dt) + days_in_month (year dt) (month dt)
          \<le> days_before_month (year dt) 12 + 31"
  proof (cases "month dt = 12")
    case True
    then show ?thesis by (simp add: days_in_month_def)
  next
    case False
    with m have "month dt < 12" by simp
    from month_end_before_next [OF m(1) this, of "year dt"] show ?thesis by simp
  qed
  with d show ?thesis by (simp add: year_end)
qed

lemma toordinal_strict_mono:
  assumes "valid_date a" "valid_date b" "date_less a b"
  shows "toordinal a < toordinal b"
proof -
  have a: "1 \<le> month a" "month a \<le> 12" "1 \<le> day a"
      "day a \<le> days_in_month (year a) (month a)"
    and b: "1 \<le> month b" "month b \<le> 12" "1 \<le> day b"
    using assms(1,2) by (simp_all add: valid_date_def)
  consider (y) "year a < year b" | (m) "year a = year b" "month a < month b"
    | (d) "year a = year b" "month a = month b" "day a < day b"
    using assms(3) by (auto simp: date_less_def)
  then show ?thesis
  proof cases
    case y
    have "toordinal a \<le> days_before_year (year a) + (if is_leap (year a) then 366 else 365)"
      using day_of_year_le [OF assms(1)] by (simp add: toordinal_def)
    also have "\<dots> = days_before_year (year a + 1)"
      by (simp add: days_before_year_Suc)
    also have "\<dots> \<le> days_before_year (year b)"
      using y by (intro days_before_year_mono) simp
    also have "\<dots> < toordinal b"
      using b(3) days_before_month_nonneg [of "year b" "month b"] by (simp add: toordinal_def)
    finally show ?thesis .
  next
    case m
    have "days_before_month (year a) (month a) + day a \<le> days_before_month (year a) (month b)"
      using month_end_before_next [OF a(1) m(2) b(2), of "year a"] a(4) by simp
    then show ?thesis
      using m(1) b(3) by (simp add: toordinal_def)
  next
    case d
    then show ?thesis by (simp add: toordinal_def)
  qed
qed

lemma time_of_day_less:
  assumes "valid_time a" "valid_time b"
  shows "(hour a < hour b \<or> hour a = hour b \<and>
           (minute a < minute b \<or> minute a = minute b \<and>
           (second a < second b \<or> second a = second b \<and> microsecond a < microsecond b)))
         \<longleftrightarrow> seconds_of_day a * 1000000 + microsecond a
                < seconds_of_day b * 1000000 + microsecond b"
  using assms unfolding valid_time_def seconds_of_day_def by auto

lemma time_of_day_range:
  assumes "valid_time a"
  shows "0 \<le> seconds_of_day a * 1000000 + microsecond a"
    and "seconds_of_day a * 1000000 + microsecond a < 86400000000"
  using assms unfolding valid_time_def seconds_of_day_def by auto

lemma dt_less_cases:
  "dt_less a b \<longleftrightarrow>
     date_less a b \<or> (year a = year b \<and> month a = month b \<and> day a = day b \<and>
       (hour a < hour b \<or> hour a = hour b \<and>
       (minute a < minute b \<or> minute a = minute b \<and>
       (second a < second b \<or> second a = second b \<and> microsecond a < microsecond b))))"
  unfolding dt_less_def date_less_def by blast

lemma dt_less_to_micro:
  assumes "valid_datetime a" "valid_datetime b" "dt_less a b"
  shows "to_micro a < to_micro b"
proof -
  have va: "valid_date a" "valid_time a" and vb: "valid_date b" "valid_time b"
    using assms(1,2) by (simp_all add: valid_datetime_def)
  note ra = time_of_day_range [OF va(2)] and rb = time_of_day_range [OF vb(2)]
  from assms(3) consider (date) "date_less a b"
    | (time) "year a = year b" "month a = month b" "day a = day b"
        "seconds_of_day a * 1000000 + microsecond a < seconds_of_day b * 1000000 + microsecond b"
    using time_of_day_less [OF va(2) vb(2)] unfolding dt_less_cases by blast
  then show ?thesis
  proof cases
    case date
    from toordinal_strict_mono [OF va(1) vb(1) date]
    have "toordinal a + 1 \<le> toordinal b" by simp
    then have "(toordinal a + 1) * 86400000000 \<le> toordinal b * 86400000000" by simp
    with ra rb show ?thesis by (simp add: to_micro_def algebra_simps)
  next
    case time
    from same_date_same_ordinal [OF time(1-3)] time(4) show ?thesis
      by (simp add: to_micro_def algebra_simps)
  qed
qed

lemma dt_less_total:
  "dt_less a b \<or> dt_less b a \<or>
     (year a = year b \<and> month a = month b \<and> day a = day b \<and> hour a = hour b
      \<and> minute a = minute b \<and> second a = second b \<and> microsecond a = microsecond b)"
  unfolding dt_less_def by linarith

lemma dt_less_iff_to_micro:
  assumes "valid_datetime a" "valid_datetime b"
  shows "dt_less a b \<longleftrightarrow> to_micro a < to_micro b"
proof
  assume "dt_less a b"
  then show "to_micro a < to_micro b" by (rule dt_less_to_micro [OF assms])
next
  assume lt: "to_micro a < to_micro b"
  show "dt_less a b"
  proof (rule ccontr)
    assume "\<not> dt_less a b"
    with dt_less_total [of a b] consider "dt_less b a"
      | "year a = year b \<and> month a = month b \<and> day a = day b \<and> hour a = hour b
          \<and> minute a = minute b \<and> second a = second b \<and> microsecond a = microsecond b"
      by blast
    then show False
    proof cases
      case 1
      from dt_less_to_micro [OF assms(2,1) 1] lt show False by simp
    next
      case 2
      then have "to_micro a = to_micro b"
        by (simp add: to_micro_def seconds_of_day_def toordinal_def)
      with lt show False by simp
    qed
  qed
qed

lemma dt_le_iff_to_micro:
  assumes "valid_datetime a" "valid_datetime b"
  shows "dt_le a b \<longleftrightarrow> to_micro a \<le> to_micro b"
  using dt_less_iff_to_micro [OF assms(2,1)] by (auto simp: dt_le_def)

subsection \<open>Parsing back what \<open>strftime\<close> has written\<close>

lemma digit_char_is_digit: "0 \<le> k \<Longrightarrow> k < 10 \<Longrightarrow> is_digit (digit_char k)"
  by (simp add: is_digit_def digit_char_def)

lemma digit_val_digit_char: "0 \<le> k \<Longrightarrow> k < 10 \<Longrightarrow> digit_val (digit_char k) = k"
  by (simp add: digit_val_def digit_char_def)

lemma two_digits:
  assumes "0 \<le> n" "n < 100"
  shows "n div 10 mod 10 * 10 + n mod 10 = (n::int)"
proof -
  have "n div 10 mod 10 = n div 10" using assms by simp
  moreover have "10 * (n div 10) + n mod 10 = n" by (rule mult_div_mod_eq)
  ultimately show ?thesis by linarith
qed

lemma four_digits:
  assumes "0 \<le> n" "n < 10000"
  shows "1000 * (n div 1000 mod 10) + 100 * (n div 100 mod 10) + n div 10 mod 10 * 10 + n mod 10 = (n::int)"
proof -
  have a: "n div 100 = n div 10 div 10" and b: "n div 1000 = n div 100 div 10"
    by (simp_all add: zdiv_zmult2_eq)
  have c: "n div 1000 mod 10 = n div 1000"
    using assms by simp
  have e1: "10 * (n div 10) + n mod 10 = n"
    by (rule mult_div_mod_eq)
  have e2: "10 * (n div 100) + n div 10 mod 10 = n div 10"
    unfolding a by (rule mult_div_mod_eq)
  have e3: "10 * (n div 1000) + n div 100 mod 10 = n div 100"
    unfolding b by (rule mult_div_mod_eq)
  show ?thesis
    using c e1 e2 e3 by linarith
qed

lemma zero_pad2_digits:
  assumes "0 \<le> n" "n < 100"
  shows "\<exists>a b. zero_pad2 n = [a, b] \<and> is_digit a \<and> is_digit b \<and> number [a, b] = n"
proof -
  let ?a = "digit_char (n div 10 mod 10)" and ?b = "digit_char (n mod 10)"
  have d: "is_digit ?a" "is_digit ?b"
    by (simp_all add: digit_char_is_digit)
  have "number [?a, ?b] = n div 10 mod 10 * 10 + n mod 10"
    by (simp add: number_def digit_val_digit_char)
  also have "\<dots> = n" by (rule two_digits [OF assms])
  finally have nv: "number [?a, ?b] = n" .
  show ?thesis unfolding zero_pad2_def using d nv by blast
qed

lemma strptime_digits:
  assumes "is_digit y1" "is_digit y2" "is_digit y3" "is_digit y4" "number [y1, y2, y3, y4] = yy"
    and "is_digit m1" "is_digit m2" "number [m1, m2] = mm"
    and "is_digit d1" "is_digit d2" "number [d1, d2] = dd"
    and "is_digit h1" "is_digit h2" "number [h1, h2] = hh"
    and "is_digit n1" "is_digit n2" "number [n1, n2] = nn"
    and "is_digit s1" "is_digit s2" "number [s1, s2] = ss"
  shows "strptime ([y1, y2, y3, y4] @ ''-'' @ [m1, m2] @ ''-'' @ [d1, d2] @ '' '' @ [h1, h2]
            @ '':'' @ [n1, n2] @ '':'' @ [s1, s2])
         = datetime_new yy mm dd hh nn ss 0"
  using assms by (simp add: strptime_def)

lemma decimal_four_digits:
  assumes "1000 \<le> n" "n < 10000"
  shows "decimal n = [digit_char (n div 1000), digit_char (n div 100 mod 10),
                      digit_char (n div 10 mod 10), digit_char (n mod 10)]"
proof -
  have a: "\<not> n < 10" "\<not> n div 10 < 10" "\<not> n div 100 < 10" "n div 1000 < 10"
    using assms by simp_all
  have e: "n div 10 div 10 = n div 100" "n div 100 div 10 = n div 1000"
    by (simp_all add: zdiv_zmult2_eq)
  have d3: "decimal (n div 1000) = [digit_char (n div 1000)]"
    by (subst decimal.simps) (simp add: a)
  have d2: "decimal (n div 100) = decimal (n div 1000) @ [digit_char (n div 100 mod 10)]"
    by (subst decimal.simps) (simp add: a e)
  have d1: "decimal (n div 10) = decimal (n div 100) @ [digit_char (n div 10 mod 10)]"
    by (subst decimal.simps) (simp add: a e)
  have d0: "decimal n = decimal (n div 10) @ [digit_char (n mod 10)]"
    by (subst decimal.simps) (simp add: a)
  show ?thesis
    by (simp add: d0 d1 d2 d3)
qed

lemma decimal_year_digits:
  assumes "1000 \<le> n" "n < 10000"
  shows "\<exists>a b c d. decimal n = [a, b, c, d] \<and> is_digit a \<and> is_digit b \<and> is_digit c
           \<and> is_digit d \<and> number [a, b, c, d] = n"
proof -
  let ?a = "digit_char (n div 1000)" and ?b = "digit_char (n div 100 mod 10)"
  let ?c = "digit_char (n div 10 mod 10)" and ?d = "digit_char (n mod 10)"
  have r: "0 \<le> n div 1000" "n div 1000 < 10" "0 \<le> n"
    using assms by simp_all
  have t: "n div 1000 mod 10 = n div 1000"
    using assms by simp
  have d: "is_digit ?a" "is_digit ?b" "is_digit ?c" "is_digit ?d"
    by (simp_all add: digit_char_is_digit r)
  have "number [?a, ?b, ?c, ?d]
          = 1000 * (n div 1000 mod 10) + 100 * (n div 100 mod 10) + n div 10 mod 10 * 10 + n mod 10"
    unfolding t by (simp add: number_def digit_val_digit_char r)
  also have "\<dots> = n" by (rule four_digits [OF r(3) assms(2)])
  finally have nv: "number [?a, ?b, ?c, ?d] = n" .
  show ?thesis unfolding decimal_four_digits [OF assms] using d nv by blast
qed

lemma decimal_short:
  assumes "n < 1000"
  shows "length (decimal n) \<le> 3"
proof (cases "n < 10")
  case True
  then show ?thesis by (subst decimal.simps) simp
next
  case False
  have d0: "decimal n = decimal (n div 10) @ [digit_char (n mod 10)]"
    using False by (subst decimal.simps) simp
  show ?thesis
  proof (cases "n div 10 < 10")
    case True
    then have "length (decimal (n div 10)) = 1" by (subst decimal.simps) simp
    then show ?thesis by (simp add: d0)
  next
    case f: False
    have "n div 10 div 10 < 10"
      using assms by (simp add: zdiv_zmult2_eq [symmetric])
    then have "length (decimal (n div 10 div 10)) = 1" by (subst decimal.simps) simp
    moreover have "decimal (n div 10)
                     = decimal (n div 10 div 10) @ [digit_char (n div 10 mod 10)]"
      using f by (subst decimal.simps) simp
    ultimately show ?thesis by (simp add: d0)
  qed
qed

lemma strptime_strftime:
  assumes "valid_datetime dt" and "1000 \<le> year dt"
  shows "strptime (strftime dt) = Inr (dt\<lparr>microsecond := 0\<rparr>)"
proof -
  have r: "0 \<le> year dt" "year dt < 10000" "0 \<le> month dt" "month dt < 100"
    "0 \<le> day dt" "day dt < 100" "0 \<le> hour dt" "hour dt < 100"
    "0 \<le> minute dt" "minute dt < 100" "0 \<le> second dt" "second dt < 100"
    using assms(1) days_in_month_bounds [of "year dt" "month dt"]
    by (simp_all add: valid_datetime_def valid_date_def valid_time_def)
  obtain y1 y2 y3 y4 where y: "decimal (year dt) = [y1, y2, y3, y4]"
      "is_digit y1" "is_digit y2" "is_digit y3" "is_digit y4" "number [y1, y2, y3, y4] = year dt"
    using decimal_year_digits [OF assms(2) r(2)] by blast
  obtain m1 m2 where m: "zero_pad2 (month dt) = [m1, m2]" "is_digit m1" "is_digit m2"
      "number [m1, m2] = month dt"
    using zero_pad2_digits [OF r(3,4)] by blast
  obtain d1 d2 where d: "zero_pad2 (day dt) = [d1, d2]" "is_digit d1" "is_digit d2"
      "number [d1, d2] = day dt"
    using zero_pad2_digits [OF r(5,6)] by blast
  obtain h1 h2 where h: "zero_pad2 (hour dt) = [h1, h2]" "is_digit h1" "is_digit h2"
      "number [h1, h2] = hour dt"
    using zero_pad2_digits [OF r(7,8)] by blast
  obtain n1 n2 where n: "zero_pad2 (minute dt) = [n1, n2]" "is_digit n1" "is_digit n2"
      "number [n1, n2] = minute dt"
    using zero_pad2_digits [OF r(9,10)] by blast
  obtain s1 s2 where s: "zero_pad2 (second dt) = [s1, s2]" "is_digit s1" "is_digit s2"
      "number [s1, s2] = second dt"
    using zero_pad2_digits [OF r(11,12)] by blast
  have v: "valid_datetime (dt\<lparr>microsecond := 0\<rparr>)"
    using assms(1) by (simp add: valid_datetime_def valid_date_def valid_time_def)
  have e: "\<lparr>year = year dt, month = month dt, day = day dt, hour = hour dt,
             minute = minute dt, second = second dt, microsecond = 0\<rparr>
           = dt\<lparr>microsecond := 0\<rparr>"
    by (cases dt) simp
  have "strptime (strftime dt)
          = datetime_new (year dt) (month dt) (day dt) (hour dt) (minute dt) (second dt) 0"
    unfolding strftime_def y(1) m(1) d(1) h(1) n(1) s(1)
    by (rule strptime_digits) (fact y m d h n s)+
  also have "\<dots> = Inr (dt\<lparr>microsecond := 0\<rparr>)"
    using v by (simp add: datetime_new_def e)
  finally show ?thesis .
qed

lemma strptime_strftime_short_year:
  assumes "valid_datetime dt" and "year dt < 1000"
  shows "strptime (strftime dt) = Inl ValueError"
proof -
  have "length (decimal (year dt)) \<le> 3"
    using assms(2) by (rule decimal_short)
  then have "length (strftime dt) \<noteq> 19"
    by (simp add: strftime_def zero_pad2_def)
  then show ?thesis
    by (simp add: strptime_def)
qed

lemma strptime_strftime_cases:
  assumes "valid_datetime dt"
  shows "strptime (strftime dt)
           = (if 1000 \<le> year dt then Inr (dt\<lparr>microsecond := 0\<rparr>) else Inl ValueError)"
  using strptime_strftime [OF assms] strptime_strftime_short_year [OF assms] by simp

text \<open>The text determines the datetime up to its microseconds.\<close>

lemma number_snoc: "number (xs @ [c]) = number xs * 10 + digit_val c"
  by (simp add: number_def)

lemma number_decimal: "0 \<le> n \<Longrightarrow> number (decimal n) = n"
proof (induction n rule: decimal.induct)
  case (1 n)
  show ?case
  proof (cases "n < 10")
    case True
    have "decimal n = [digit_char n]"
      using True by (subst decimal.simps) simp
    then show ?thesis
      using True "1.prems" by (simp add: number_def digit_val_digit_char)
  next
    case False
    have d: "decimal n = decimal (n div 10) @ [digit_char (n mod 10)]"
      using False by (subst decimal.simps) simp
    have "0 \<le> n div 10"
      using "1.prems" by simp
    then have ih: "number (decimal (n div 10)) = n div 10"
      using "1.IH" False by simp
    have "number (decimal n) = n div 10 * 10 + n mod 10"
      by (simp add: d number_snoc ih digit_val_digit_char)
    also have "\<dots> = n"
      by (rule div_mult_mod_eq)
    finally show ?thesis .
  qed
qed

lemma number_zero_pad2: "0 \<le> n \<Longrightarrow> n < 100 \<Longrightarrow> number (zero_pad2 n) = n"
  using zero_pad2_digits [of n] by auto

lemma strftime_inject:
  assumes "valid_datetime a" and "valid_datetime b"
    and "microsecond a = microsecond b" and "strftime a = strftime b"
  shows "a = b"
proof -
  have ra: "0 \<le> year a" "0 \<le> month a" "month a < 100" "0 \<le> day a" "day a < 100"
    "0 \<le> hour a" "hour a < 100" "0 \<le> minute a" "minute a < 100"
    "0 \<le> second a" "second a < 100"
    using assms(1) days_in_month_bounds [of "year a" "month a"]
    by (simp_all add: valid_datetime_def valid_date_def valid_time_def)
  have rb: "0 \<le> year b" "0 \<le> month b" "month b < 100" "0 \<le> day b" "day b < 100"
    "0 \<le> hour b" "hour b < 100" "0 \<le> minute b" "minute b < 100"
    "0 \<le> second b" "second b < 100"
    using assms(2) days_in_month_bounds [of "year b" "month b"]
    by (simp_all add: valid_datetime_def valid_date_def valid_time_def)
  have len: "length (strftime x) = length (decimal (year x)) + 15" for x
    by (simp add: strftime_def zero_pad2_def)
  from assms(4) have "length (strftime a) = length (strftime b)"
    by simp
  then have l: "length (decimal (year a)) = length (decimal (year b))"
    by (simp add: len)
  from assms(4) have parts: "decimal (year a) = decimal (year b)"
      "zero_pad2 (month a) = zero_pad2 (month b)" "zero_pad2 (day a) = zero_pad2 (day b)"
      "zero_pad2 (hour a) = zero_pad2 (hour b)" "zero_pad2 (minute a) = zero_pad2 (minute b)"
      "zero_pad2 (second a) = zero_pad2 (second b)"
    unfolding strftime_def using l by (simp_all add: zero_pad2_def)
  have "year a = year b"
    using arg_cong [OF parts(1), of number] ra(1) rb(1) by (simp add: number_decimal)
  moreover have "month a = month b"
    using arg_cong [OF parts(2), of number] ra rb by (simp add: number_zero_pad2)
  moreover have "day a = day b"
    using arg_cong [OF parts(3), of number] ra rb by (simp add: number_zero_pad2)
  moreover have "hour a = hour b"
    using arg_cong [OF parts(4), of number] ra rb by (simp add: number_zero_pad2)
  moreover have "minute a = minute b"
    using arg_cong [OF parts(5), of number] ra rb by (simp add: number_zero_pad2)
  moreover have "second a = second b"
    using arg_cong [OF parts(6), of number] ra rb by (simp add: number_zero_pad2)
  ultimately show ?thesis
    using assms(3) by (cases a, cases b) simp
qed

subsection \<open>Replacing fields\<close>

lemma replace_hm:
  assumes "valid_datetime dt" "0 \<le> h" "h \<le> 23" "0 \<le> mi" "mi \<le> 59"
  shows "replace dt None None None (Some h) (Some mi) = Inr (dt\<lparr>hour := h, minute := mi\<rparr>)"
proof -
  have e: "\<lparr>year = year dt, month = month dt, day = day dt, hour = h, minute = mi,
             second = second dt, microsecond = microsecond dt\<rparr> = dt\<lparr>hour := h, minute := mi\<rparr>"
    by (cases dt) simp
  have "valid_datetime (dt\<lparr>hour := h, minute := mi\<rparr>)"
    using assms by (simp add: valid_datetime_def valid_date_def valid_time_def)
  then show ?thesis
    using assms(2-5) by (simp add: replace_def given_c_int_def c_int_def datetime_new_def e)
qed

lemma replace_dhm:
  "replace dt None None (Some d) (Some h) (Some mi) =
     (if \<not> (c_int d \<and> c_int h \<and> c_int mi) then Inl OverflowError
      else if valid_datetime (dt\<lparr>day := d, hour := h, minute := mi\<rparr>)
      then Inr (dt\<lparr>day := d, hour := h, minute := mi\<rparr>) else Inl ValueError)"
proof -
  have e: "\<lparr>year = year dt, month = month dt, day = d, hour = h, minute = mi,
             second = second dt, microsecond = microsecond dt\<rparr>
           = dt\<lparr>day := d, hour := h, minute := mi\<rparr>"
    by (cases dt) simp
  show ?thesis by (simp add: replace_def given_c_int_def datetime_new_def e)
qed

lemma replace_ym:
  "replace dt (Some y) (Some mo) None None None =
     (if \<not> (c_int y \<and> c_int mo) then Inl OverflowError
      else if valid_datetime (dt\<lparr>year := y, month := mo\<rparr>)
      then Inr (dt\<lparr>year := y, month := mo\<rparr>) else Inl ValueError)"
proof -
  have e: "\<lparr>year = y, month = mo, day = day dt, hour = hour dt, minute = minute dt,
             second = second dt, microsecond = microsecond dt\<rparr>
           = dt\<lparr>year := y, month := mo\<rparr>"
    by (cases dt) simp
  show ?thesis by (simp add: replace_def given_c_int_def datetime_new_def e)
qed

lemma replace_m:
  "replace dt None (Some mo) None None None =
     (if \<not> c_int mo then Inl OverflowError
      else if valid_datetime (dt\<lparr>month := mo\<rparr>) then Inr (dt\<lparr>month := mo\<rparr>)
      else Inl ValueError)"
proof -
  have e: "\<lparr>year = year dt, month = mo, day = day dt, hour = hour dt, minute = minute dt,
             second = second dt, microsecond = microsecond dt\<rparr>
           = dt\<lparr>month := mo\<rparr>"
    by (cases dt) simp
  show ?thesis by (simp add: replace_def given_c_int_def datetime_new_def e)
qed



subsection \<open>The three branches of the calculator\<close>

lemma daily_core:
  assumes "valid_datetime now" and "parse_hour_minute sv = Inr (h, mi)"
    and "0 \<le> h" "h \<le> 23" "0 \<le> mi" "mi \<le> 59"
  shows "calculate_next_time ''daily'' sv now =
           (if hour now < h \<or> hour now = h \<and> minute now < mi
            then Inr (now\<lparr>hour := h, minute := mi\<rparr>)
            else if toordinal now < MAXORDINAL
              then Inr (tomorrow (now\<lparr>hour := h, minute := mi\<rparr>))
              else Inl OverflowError)"
proof -
  let ?t = "now\<lparr>hour := h, minute := mi\<rparr>"
  have vt: "valid_datetime ?t"
    using assms by (simp add: valid_datetime_def valid_date_def valid_time_def)
  have le: "dt_le ?t now = (\<not> (hour now < h \<or> hour now = h \<and> minute now < mi))"
    by (simp add: dt_le_def dt_less_def)
  have pos: "0 < toordinal now + 1"
    using assms(1) toordinal_pos [of now] by (simp add: valid_datetime_def)
  have pd: "plus_days_hours ?t 1 0 =
              (if toordinal now < MAXORDINAL then Inr (tomorrow ?t) else Inl OverflowError)"
    using pos by (simp add: plus_days [OF vt] shift_days_def)
  show ?thesis
    by (simp only: calculate_next_time_def assms(2) replace_hm [OF assms(1,3-6)] le pd
        sum.case prod.case if_True if_False refl split: if_split) auto
qed

lemma weekly_core:
  assumes "valid_datetime now" and "parse_day_time sv = Inr (d, h, mi)"
    and "0 \<le> d" "d \<le> 6" "0 \<le> h" "h \<le> 23" "0 \<le> mi" "mi \<le> 59"
    and "k = (if d - weekday now \<le> 0 then d - weekday now + 7 else d - weekday now)"
  shows "calculate_next_time ''weekly'' sv now =
           (if toordinal now + k \<le> MAXORDINAL
            then Inr ((shift_days now k)\<lparr>hour := h, minute := mi\<rparr>)
            else Inl OverflowError)"
    and "1 \<le> k" and "k \<le> 7"
proof -
  show k: "1 \<le> k" "k \<le> 7"
    using assms(3,4,9) weekday_range [of now] by (auto split: if_splits)
  have pos: "0 < toordinal now + k"
    using k assms(1) toordinal_pos [of now] by (simp add: valid_datetime_def)
  have pd: "plus_days_hours now k 0 =
              (if toordinal now + k \<le> MAXORDINAL then Inr (shift_days now k)
               else Inl OverflowError)"
    using k pos by (simp add: plus_days [OF assms(1)])
  have rp: "toordinal now + k \<le> MAXORDINAL \<Longrightarrow>
              replace (shift_days now k) None None None (Some h) (Some mi)
                = Inr ((shift_days now k)\<lparr>hour := h, minute := mi\<rparr>)"
    using valid_datetime_shift_days [OF assms(1) pos] assms(5-8) by (simp add: replace_hm)
  have "calculate_next_time ''weekly'' sv now =
          (case plus_days_hours now k 0 of
             Inl e \<Rightarrow> Inl e
           | Inr next_time \<Rightarrow> replace next_time None None None (Some h) (Some mi))"
    by (simp add: calculate_next_time_def assms(2) assms(9) Let_def)
  then show "calculate_next_time ''weekly'' sv now =
           (if toordinal now + k \<le> MAXORDINAL
            then Inr ((shift_days now k)\<lparr>hour := h, minute := mi\<rparr>)
            else Inl OverflowError)"
    using rp by (simp add: pd)
qed

lemma monthly_core:
  assumes "valid_datetime now" and "parse_day_time sv = Inr (d, h, mi)"
    and "st \<noteq> ''daily''" "st \<noteq> ''weekly''"
    and "target = now\<lparr>day := d, hour := h, minute := mi\<rparr>"
  shows "calculate_next_time st sv now =
           (if \<not> (c_int d \<and> c_int h \<and> c_int mi) then Inl OverflowError
            else if \<not> valid_datetime target then Inl ValueError
            else if dt_less now target then Inr target
            else if month now = 12
              then (if year now < 9999 then Inr (target\<lparr>year := year now + 1, month := 1\<rparr>)
                    else Inl ValueError)
            else if d \<le> days_in_month (year now) (month now + 1)
              then Inr (target\<lparr>month := month now + 1\<rparr>)
            else Inl ValueError)"
proof (cases "c_int d \<and> c_int h \<and> c_int mi")
  case False
  then show ?thesis
    by (simp add: calculate_next_time_def assms(2-5) replace_dhm)
next
  case ci: True
  show ?thesis
  proof (cases "valid_datetime target")
    case False
    then show ?thesis
      using ci by (simp add: calculate_next_time_def assms(2-5) replace_dhm)
  next
    case True
    have tf: "year target = year now" "month target = month now" "day target = d"
      by (simp_all add: assms(5))
    have d: "1 \<le> d" "d \<le> days_in_month (year now) (month now)"
      and m: "1 \<le> month now" "month now \<le> 12" and y: "1 \<le> year now" "year now \<le> 9999"
      and vt: "valid_time target"
      using True tf by (simp_all add: valid_datetime_def valid_date_def)
    have fit: "c_int (year now + 1)" "c_int 1" "c_int (month now + 1)"
      using m y by (simp_all add: c_int_def)
    have dec: "valid_datetime (target\<lparr>year := year now + 1, month := 1\<rparr>) = (year now < 9999)"
      if "month now = 12"
      using that d y vt tf
      by (auto simp: valid_datetime_def valid_date_def valid_time_def days_in_month_def)
    have nxt: "valid_datetime (target\<lparr>month := month now + 1\<rparr>)
                 = (d \<le> days_in_month (year now) (month now + 1))"
      if "month now \<noteq> 12"
      using that d m y vt tf
      by (auto simp: valid_datetime_def valid_date_def valid_time_def)
    have "calculate_next_time st sv now =
            (if dt_le target now then
               (if month now = 12
                then replace target (Some (year now + 1)) (Some 1) None None None
                else replace target None (Some (month now + 1)) None None None)
             else Inr target)"
      using True ci
      by (simp add: calculate_next_time_def assms(2-4) replace_dhm assms(5) [symmetric])
    then show ?thesis
      using True ci dec nxt fit by (simp add: dt_le_def replace_ym replace_m)
  qed
qed

lemma strftime_whole_seconds: "strftime (t\<lparr>microsecond := 0\<rparr>) = strftime t"
  by (simp add: strftime_def)

lemma returned_text:
  assumes "calculate_next_time st sv now = Inr t0" and "valid_datetime t0"
    and "t = t0\<lparr>microsecond := 0\<rparr>"
  shows "calculate_next_reminder st sv now = Inr (strftime t)"
    and "valid_datetime t" and "microsecond t = 0"
    and "strptime (strftime t) = (if 1000 \<le> year t then Inr t else Inl ValueError)"
proof -
  show "calculate_next_reminder st sv now = Inr (strftime t)"
    by (simp add: calculate_next_reminder_def assms(1,3) strftime_whole_seconds)
  show v: "valid_datetime t"
    using assms(2) by (simp add: assms(3) valid_datetime_def valid_date_def valid_time_def)
  show "microsecond t = 0"
    by (simp add: assms(3))
  show "strptime (strftime t) = (if 1000 \<le> year t then Inr t else Inl ValueError)"
    using strptime_strftime_cases [OF v] by (simp add: assms(3))
qed

lemma daily_general:
  assumes "valid_datetime now" and "parse_hour_minute sv = Inr (h, mi)"
    and "0 \<le> h" "h \<le> 23" "0 \<le> mi" "mi \<le> 59"
  shows "if toordinal now < MAXORDINAL \<or> hour now < h \<or> hour now = h \<and> minute now < mi
         then \<exists>t. calculate_next_reminder ''daily'' sv now = Inr (strftime t)
                \<and> valid_datetime t \<and> microsecond t = 0
                \<and> strptime (strftime t) = (if 1000 \<le> year t then Inr t else Inl ValueError)
                \<and> dt_less now t
                \<and> to_micro now < to_micro t \<and> to_micro t \<le> to_micro now + 86400000000
         else calculate_next_reminder ''daily'' sv now = Inl OverflowError"
proof -
  let ?target = "now\<lparr>hour := h, minute := mi\<rparr>"
  note core = daily_core [OF assms]
  have vt: "valid_datetime ?target"
    using assms by (simp add: valid_datetime_def valid_date_def valid_time_def)
  have b: "0 \<le> hour now" "hour now \<le> 23" "0 \<le> minute now" "minute now \<le> 59"
    "0 \<le> microsecond now" "microsecond now \<le> 999999"
    using assms(1) by (simp_all add: valid_datetime_def valid_time_def)
  show ?thesis
  proof (cases "hour now < h \<or> hour now = h \<and> minute now < mi")
    case True
    define t where "t = ?target\<lparr>microsecond := 0\<rparr>"
    have c: "calculate_next_time ''daily'' sv now = Inr ?target"
      using True core by simp
    note r = returned_text [OF c vt t_def]
    have m: "to_micro now < to_micro t \<and> to_micro t \<le> to_micro now + 86400000000"
      unfolding t_def using True b assms(3-6)
      by (auto simp: to_micro_truncated to_micro_expand)
    then have "dt_less now t"
      by (simp add: dt_less_iff_to_micro [OF assms(1) r(2)])
    with r m True show ?thesis by auto
  next
    case False
    show ?thesis
    proof (cases "toordinal now < MAXORDINAL")
      case lt: True
      let ?t = "tomorrow ?target"
      define t where "t = ?t\<lparr>microsecond := 0\<rparr>"
      have c: "calculate_next_time ''daily'' sv now = Inr ?t"
        using core False lt by simp
      have lt': "toordinal ?target < MAXORDINAL" using lt by simp
      have v: "valid_datetime ?t"
        by (rule valid_datetime_tomorrow [OF vt lt'])
      note r = returned_text [OF c v t_def]
      have o: "toordinal ?t = toordinal now + 1"
        using toordinal_tomorrow [of ?target] vt lt' by (simp add: valid_datetime_def)
      have m: "to_micro now < to_micro t \<and> to_micro t \<le> to_micro now + 86400000000"
        unfolding t_def using False b assms(3-6)
        by (auto simp: to_micro_truncated to_micro_expand o)
      then have "dt_less now t"
        by (simp add: dt_less_iff_to_micro [OF assms(1) r(2)])
      with r m lt show ?thesis by auto
    next
      case ge: False
      then show ?thesis
        using core False by (simp add: calculate_next_reminder_def)
    qed
  qed
qed

lemma weekly_result:
  assumes "valid_datetime now" and "parse_day_time sv = Inr (d, h, mi)"
    and "0 \<le> d" "d \<le> 6" "0 \<le> h" "h \<le> 23" "0 \<le> mi" "mi \<le> 59"
    and "k = (if d - weekday now \<le> 0 then d - weekday now + 7 else d - weekday now)"
    and "toordinal now + k \<le> MAXORDINAL"
    and "t = (shift_days now k)\<lparr>hour := h, minute := mi, microsecond := 0\<rparr>"
  shows "calculate_next_reminder ''weekly'' sv now = Inr (strftime t)"
    and "valid_datetime t"
    and "strptime (strftime t) = (if 1000 \<le> year t then Inr t else Inl ValueError)"
    and "toordinal t = toordinal now + k"
    and "hour t = h" "minute t = mi" "second t = second now" "microsecond t = 0"
proof -
  note core = weekly_core [OF assms(1-9)]
  let ?t0 = "(shift_days now k)\<lparr>hour := h, minute := mi\<rparr>"
  have pos: "0 < toordinal now + k"
    using core(2) assms(1) toordinal_pos [of now] by (simp add: valid_datetime_def)
  have vs: "valid_datetime (shift_days now k)"
    by (rule valid_datetime_shift_days [OF assms(1) pos assms(10)])
  then have v: "valid_datetime ?t0"
    using assms(5-8) by (simp add: valid_datetime_def valid_date_def valid_time_def)
  have c: "calculate_next_time ''weekly'' sv now = Inr ?t0"
    using core(1) assms(10) by simp
  have t: "t = ?t0\<lparr>microsecond := 0\<rparr>"
    by (simp add: assms(11))
  note r = returned_text [OF c v t]
  show "calculate_next_reminder ''weekly'' sv now = Inr (strftime t)"
    by (rule r(1))
  show "valid_datetime t"
    by (rule r(2))
  show "strptime (strftime t) = (if 1000 \<le> year t then Inr t else Inl ValueError)"
    by (rule r(4))
  show "toordinal t = toordinal now + k"
    using toordinal_shift_days(1) [of now k] assms(1) pos assms(10)
    by (simp add: assms(11) valid_datetime_def)
  show "hour t = h" "minute t = mi" "second t = second now" "microsecond t = 0"
    by (simp_all add: assms(11))
qed



subsection \<open>Concrete runs of the calculator\<close>

lemma monday_morning_valid:
  "valid_datetime \<lparr>year = 2024, month = 1, day = 1, hour = 10, minute = 0, second = 0,
     microsecond = 0\<rparr>"
  by code_simp

lemma monday_evening_valid:
  "valid_datetime \<lparr>year = 2024, month = 1, day = 1, hour = 19, minute = 0, second = 0,
     microsecond = 0\<rparr>"
  by code_simp

lemma parse_1800: "parse_hour_minute ''18:00'' = Inr (18, 0)"
  by code_simp

lemma parse_monday_1800: "parse_day_time ''0,18:00'' = Inr (0, 18, 0)"
  by code_simp

lemma daily_morning_run:
  "calculate_next_reminder ''daily'' ''18:00''
     \<lparr>year = 2024, month = 1, day = 1, hour = 10, minute = 0, second = 0, microsecond = 0\<rparr>
   = Inr ''2024-01-01 18:00:00''"
  by code_simp

lemma daily_evening_run:
  "calculate_next_reminder ''daily'' ''18:00''
     \<lparr>year = 2024, month = 1, day = 1, hour = 19, minute = 0, second = 0, microsecond = 0\<rparr>
   = Inr ''2024-01-02 18:00:00''"
  by code_simp

lemma last_day_valid:
  "valid_datetime \<lparr>year = 9999, month = 12, day = 31, hour = 19, minute = 0, second = 0,
     microsecond = 0\<rparr>"
  by code_simp

lemma daily_last_day_run:
  "calculate_next_reminder ''daily'' ''18:00''
     \<lparr>year = 9999, month = 12, day = 31, hour = 19, minute = 0, second = 0, microsecond = 0\<rparr>
   = Inl OverflowError"
  by code_simp

lemma weekly_monday_run:
  "calculate_next_reminder ''weekly'' ''0,18:00''
     \<lparr>year = 2024, month = 1, day = 1, hour = 10, minute = 0, second = 0, microsecond = 0\<rparr>
   = Inr ''2024-01-08 18:00:00''"
  by code_simp

lemma strptime_next_monday:
  "strptime ''2024-01-08 18:00:00''
     = Inr \<lparr>year = 2024, month = 1, day = 8, hour = 18, minute = 0, second = 0, microsecond = 0\<rparr>"
  by code_simp

lemma monday_ordinals:
  "toordinal \<lparr>year = 2024, month = 1, day = 1, hour = 10, minute = 0, second = 0,
     microsecond = 0\<rparr> = 738886"
  "toordinal \<lparr>year = 2024, month = 1, day = 8, hour = 18, minute = 0, second = 0,
     microsecond = 0\<rparr> = 738893"
  by code_simp+

lemma monday_weekday:
  "weekday \<lparr>year = 2024, month = 1, day = 1, hour = 10, minute = 0, second = 0,
     microsecond = 0\<rparr> = 0"
  by code_simp

lemma wednesday_facts:
  "valid_datetime \<lparr>year = 2024, month = 1, day = 3, hour = 8, minute = 0, second = 0,
     microsecond = 0\<rparr>"
  "weekday \<lparr>year = 2024, month = 1, day = 3, hour = 8, minute = 0, second = 0,
     microsecond = 0\<rparr> = 2"
  "toordinal \<lparr>year = 2024, month = 1, day = 3, hour = 8, minute = 0, second = 0,
     microsecond = 0\<rparr> = 738888"
  "parse_day_time ''0,09:00'' = Inr (0, 9, 0)"
  by code_simp+

lemma december_facts:
  "valid_datetime \<lparr>year = 2024, month = 12, day = 15, hour = 10, minute = 0, second = 0,
     microsecond = 0\<rparr>"
  "parse_day_time ''10,09:30'' = Inr (10, 9, 30)"
  "valid_datetime \<lparr>year = 2024, month = 12, day = 10, hour = 9, minute = 30, second = 0,
     microsecond = 0\<rparr>"
  "strftime \<lparr>year = 2025, month = 1, day = 10, hour = 9, minute = 30, second = 0,
     microsecond = 0\<rparr> = ''2025-01-10 09:30:00''"
  by code_simp+

section \<open>The claims about the schedule calculator\<close>

text \<open>
  The calculator returns a text. In the theorems below the returned text is
  \<open>strftime t\<close> for a valid datetime \<open>t\<close> of whole seconds, and the properties are
  those of \<open>t\<close>; by \<open>strftime_inject\<close> the text determines \<open>t\<close>. The program's own
  reader \<open>strptime\<close> gives \<open>t\<close> back from the text when the year of \<open>t\<close> has four
  digits, and raises \<open>ValueError\<close> on the text of an earlier year.
\<close>

text \<open>
  C1 (as amended). For a weekly schedule with weekday \<open>d\<close> in 0..6 and a valid
  \<open>HH:MM\<close>, and any valid \<open>now\<close>: let \<open>k\<close> be the day offset that the code
  computes (1 to 7). Unless the date \<open>k\<close> days ahead lies past 9999-12-31 (then
  \<open>OverflowError\<close> is raised), \<open>calculate_next_reminder\<close> returns a text whose
  timestamp falls on weekday \<open>d\<close> and lies strictly between \<open>now\<close> and
  \<open>now\<close> + 8 days. It is at most \<open>now\<close> + 7 days except when \<open>d\<close> is today's
  weekday and \<open>HH:MM\<close> is later than the current hour and minute; in that case it is
  more than 7 days after \<open>now\<close>.
\<close>

theorem weekly_next_on_weekday:
  assumes "valid_datetime now" and "parse_day_time sv = Inr (d, h, mi)"
    and "0 \<le> d" "d \<le> 6" "0 \<le> h" "h \<le> 23" "0 \<le> mi" "mi \<le> 59"
    and "k = (if d - weekday now \<le> 0 then d - weekday now + 7 else d - weekday now)"
  shows "if toordinal now + k \<le> MAXORDINAL
         then \<exists>t. calculate_next_reminder ''weekly'' sv now = Inr (strftime t)
                \<and> valid_datetime t \<and> microsecond t = 0
                \<and> strptime (strftime t) = (if 1000 \<le> year t then Inr t else Inl ValueError)
                \<and> weekday t = d \<and> dt_less now t
                \<and> to_micro now < to_micro t \<and> to_micro t < to_micro now + 8 * 86400000000
                \<and> (if d = weekday now \<and> (hour now < h \<or> hour now = h \<and> minute now < mi)
                    then to_micro now + 7 * 86400000000 < to_micro t
                    else to_micro t \<le> to_micro now + 7 * 86400000000)
         else calculate_next_reminder ''weekly'' sv now = Inl OverflowError"
proof (cases "toordinal now + k \<le> MAXORDINAL")
  case False
  then show ?thesis
    using weekly_core(1) [OF assms] by (simp add: calculate_next_reminder_def)
next
  case True
  define t where "t = (shift_days now k)\<lparr>hour := h, minute := mi, microsecond := 0\<rparr>"
  note r = weekly_result [OF assms True t_def]
  note kr = weekly_core(2,3) [OF assms]
  have b: "0 \<le> hour now" "hour now \<le> 23" "0 \<le> minute now" "minute now \<le> 59"
    "0 \<le> microsecond now" "microsecond now \<le> 999999"
    using assms(1) by (simp_all add: valid_datetime_def valid_time_def)
  have wd: "weekday t = d"
    using weekday_target [OF assms(3,4), of "toordinal now"]
    by (simp add: weekday_def r(4) assms(9))
  have k7: "k = 7 \<longleftrightarrow> d = weekday now"
    using assms(3,4,9) weekday_range [of now] by (auto split: if_splits)
  have tm: "to_micro t = ((toordinal now + k) * 86400 + h * 3600 + mi * 60 + second now) * 1000000"
    by (simp add: to_micro_expand r(4-8))
  note tn = to_micro_expand [of now]
  have lo: "to_micro now < to_micro t"
    using kr b assms(5-8) by (simp add: tm tn)
  have hi: "to_micro t < to_micro now + 8 * 86400000000"
    using kr b assms(5-8) by (simp add: tm tn)
  have late: "to_micro now + 7 * 86400000000 < to_micro t"
    if "d = weekday now" "hour now < h \<or> hour now = h \<and> minute now < mi"
    using that k7 b assms(5-8) by (auto simp: tm tn)
  have early: "to_micro t \<le> to_micro now + 7 * 86400000000"
    if "\<not> (d = weekday now \<and> (hour now < h \<or> hour now = h \<and> minute now < mi))"
  proof (cases "d = weekday now")
    case True
    with that k7 b assms(5-8) show ?thesis
      by (auto simp: tm tn)
  next
    case False
    with k7 kr have "k \<le> 6" by simp
    with b assms(5-8) show ?thesis
      by (simp add: tm tn)
  qed
  from lo have dl: "dt_less now t"
    by (simp add: dt_less_iff_to_micro [OF assms(1) r(2)])
  have body: "calculate_next_reminder ''weekly'' sv now = Inr (strftime t)
          \<and> valid_datetime t \<and> microsecond t = 0
          \<and> strptime (strftime t) = (if 1000 \<le> year t then Inr t else Inl ValueError)
          \<and> weekday t = d \<and> dt_less now t
          \<and> to_micro now < to_micro t \<and> to_micro t < to_micro now + 8 * 86400000000
          \<and> (if d = weekday now \<and> (hour now < h \<or> hour now = h \<and> minute now < mi)
              then to_micro now + 7 * 86400000000 < to_micro t
              else to_micro t \<le> to_micro now + 7 * 86400000000)"
    using r(1,2,3,8) wd dl lo hi late early
    by (cases "d = weekday now \<and> (hour now < h \<or> hour now = h \<and> minute now < mi)") simp_all
  show ?thesis
    unfolding if_P [OF True] by (rule exI [of _ t]) (fact body)
qed

theorem weekly_next_on_weekday_witness:
  "valid_datetime \<lparr>year = 2024, month = 1, day = 3, hour = 8, minute = 0, second = 0,
     microsecond = 0\<rparr>
   \<and> parse_day_time ''0,09:00'' = Inr (0, 9, 0)
   \<and> (\<exists>t. calculate_next_reminder ''weekly'' ''0,09:00''
          \<lparr>year = 2024, month = 1, day = 3, hour = 8, minute = 0, second = 0,
             microsecond = 0\<rparr> = Inr (strftime t)
        \<and> strptime (strftime t) = Inr t \<and> weekday t = 0
        \<and> to_micro \<lparr>year = 2024, month = 1, day = 3, hour = 8, minute = 0, second = 0,
             microsecond = 0\<rparr> < to_micro t
        \<and> to_micro t \<le> to_micro \<lparr>year = 2024, month = 1, day = 3, hour = 8, minute = 0,
             second = 0, microsecond = 0\<rparr> + 7 * 86400000000)"
proof -
  let ?now = "\<lparr>year = 2024, month = 1, day = 3, hour = 8, minute = 0, second = 0,
                microsecond = 0\<rparr>"
  have k: "5 = (if 0 - weekday ?now \<le> 0 then 0 - weekday ?now + 7 else 0 - weekday ?now)"
    by (simp add: wednesday_facts(2))
  have "if toordinal ?now + 5 \<le> MAXORDINAL
        then \<exists>t. calculate_next_reminder ''weekly'' ''0,09:00'' ?now = Inr (strftime t)
               \<and> valid_datetime t \<and> microsecond t = 0
               \<and> strptime (strftime t) = (if 1000 \<le> year t then Inr t else Inl ValueError)
               \<and> weekday t = 0 \<and> dt_less ?now t
               \<and> to_micro ?now < to_micro t \<and> to_micro t < to_micro ?now + 8 * 86400000000
               \<and> (if 0 = weekday ?now \<and> (hour ?now < 9 \<or> hour ?now = 9 \<and> minute ?now < 0)
                   then to_micro ?now + 7 * 86400000000 < to_micro t
                   else to_micro t \<le> to_micro ?now + 7 * 86400000000)
        else calculate_next_reminder ''weekly'' ''0,09:00'' ?now = Inl OverflowError"
    by (rule weekly_next_on_weekday [OF wednesday_facts(1) wednesday_facts(4) _ _ _ _ _ _ k])
       simp_all
  then obtain t where
    t: "calculate_next_reminder ''weekly'' ''0,09:00'' ?now = Inr (strftime t)"
       "strptime (strftime t) = (if 1000 \<le> year t then Inr t else Inl ValueError)"
       "weekday t = 0" "dt_less ?now t" "to_micro ?now < to_micro t"
       "to_micro t \<le> to_micro ?now + 7 * 86400000000"
    by (simp add: wednesday_facts(2,3) MAXORDINAL_def) blast
  from t(4) have "1000 \<le> year t"
    by (auto simp: dt_less_def)
  with t(2) have "strptime (strftime t) = Inr t"
    by simp
  with t(1,3,5,6) wednesday_facts(1,4) show ?thesis
    by blast
qed

theorem weekly_seven_day_bound_counterexample:
  "valid_datetime \<lparr>year = 2024, month = 1, day = 1, hour = 10, minute = 0, second = 0,
     microsecond = 0\<rparr>
   \<and> parse_day_time ''0,18:00'' = Inr (0, 18, 0)
   \<and> calculate_next_reminder ''weekly'' ''0,18:00''
        \<lparr>year = 2024, month = 1, day = 1, hour = 10, minute = 0, second = 0, microsecond = 0\<rparr>
       = Inr ''2024-01-08 18:00:00''
   \<and> strptime ''2024-01-08 18:00:00''
       = Inr \<lparr>year = 2024, month = 1, day = 8, hour = 18, minute = 0, second = 0,
               microsecond = 0\<rparr>
   \<and> \<not> to_micro \<lparr>year = 2024, month = 1, day = 8, hour = 18, minute = 0, second = 0,
            microsecond = 0\<rparr>
         \<le> to_micro \<lparr>year = 2024, month = 1, day = 1, hour = 10, minute = 0, second = 0,
              microsecond = 0\<rparr> + 7 * 86400000000"
  by (simp add: monday_morning_valid parse_monday_1800 weekly_monday_run strptime_next_monday
      to_micro_expand monday_ordinals)

text \<open>
  C2. For a weekly schedule with weekday \<open>d\<close> in 0..6 and a valid \<open>HH:MM\<close>:
  when the day offset \<open>d - weekday now\<close> is zero or negative, the code adds 7 to it,
  so the date of the result is \<open>d - weekday now + 7\<close> days after today (a full 7 days
  when \<open>d\<close> is today's weekday), and is never today's date, whatever the current
  time of day. Only a date past 9999-12-31 makes the call raise instead.
\<close>

theorem weekly_rolls_forward_seven_days:
  assumes "valid_datetime now" and "parse_day_time sv = Inr (d, h, mi)"
    and "0 \<le> d" "d \<le> 6" "0 \<le> h" "h \<le> 23" "0 \<le> mi" "mi \<le> 59"
    and "d - weekday now \<le> 0"
  shows "if toordinal now + (d - weekday now + 7) \<le> MAXORDINAL
         then \<exists>t. calculate_next_reminder ''weekly'' sv now = Inr (strftime t)
                \<and> valid_datetime t \<and> microsecond t = 0
                \<and> strptime (strftime t) = (if 1000 \<le> year t then Inr t else Inl ValueError)
                \<and> toordinal t = toordinal now + (d - weekday now + 7)
                \<and> toordinal now < toordinal t
                \<and> \<not> (year t = year now \<and> month t = month now \<and> day t = day now)
         else calculate_next_reminder ''weekly'' sv now = Inl OverflowError"
proof -
  define k where "k = d - weekday now + 7"
  have k: "k = (if d - weekday now \<le> 0 then d - weekday now + 7 else d - weekday now)"
    using assms(9) by (simp add: k_def)
  note core = weekly_core [OF assms(1-8) k]
  show ?thesis
  proof (cases "toordinal now + k \<le> MAXORDINAL")
    case False
    then show ?thesis
      using core(1) by (simp add: calculate_next_reminder_def k_def)
  next
    case True
    define t where "t = (shift_days now k)\<lparr>hour := h, minute := mi, microsecond := 0\<rparr>"
    note r = weekly_result [OF assms(1-8) k True t_def]
    have later: "toordinal now < toordinal t"
      using core(2) by (simp add: r(4))
    then have "\<not> (year t = year now \<and> month t = month now \<and> day t = day now)"
      using same_date_same_ordinal [of t now] by auto
    with r(1,2,3,4,8) later
    have body: "calculate_next_reminder ''weekly'' sv now = Inr (strftime t)
            \<and> valid_datetime t \<and> microsecond t = 0
            \<and> strptime (strftime t) = (if 1000 \<le> year t then Inr t else Inl ValueError)
            \<and> toordinal t = toordinal now + (d - weekday now + 7)
            \<and> toordinal now < toordinal t
            \<and> \<not> (year t = year now \<and> month t = month now \<and> day t = day now)"
      by (simp add: k_def)
    show ?thesis
      unfolding if_P [OF True [unfolded k_def]] by (rule exI [of _ t]) (fact body)
  qed
qed

theorem weekly_rolls_forward_seven_days_witness:
  "valid_datetime \<lparr>year = 2024, month = 1, day = 1, hour = 10, minute = 0, second = 0,
     microsecond = 0\<rparr>
   \<and> parse_day_time ''0,18:00'' = Inr (0, 18, 0)
   \<and> 0 - weekday \<lparr>year = 2024, month = 1, day = 1, hour = 10, minute = 0, second = 0,
         microsecond = 0\<rparr> \<le> 0
   \<and> (\<exists>t. calculate_next_reminder ''weekly'' ''0,18:00''
          \<lparr>year = 2024, month = 1, day = 1, hour = 10, minute = 0, second = 0,
             microsecond = 0\<rparr> = Inr (strftime t)
        \<and> strftime t = ''2024-01-08 18:00:00''
        \<and> toordinal t = toordinal \<lparr>year = 2024, month = 1, day = 1, hour = 10, minute = 0,
              second = 0, microsecond = 0\<rparr> + 7
        \<and> \<not> (year t = 2024 \<and> month t = 1 \<and> day t = 1))"
proof -
  let ?now = "\<lparr>year = 2024, month = 1, day = 1, hour = 10, minute = 0, second = 0,
                microsecond = 0\<rparr>"
  have off: "0 - weekday ?now \<le> 0"
    by (simp add: monday_weekday)
  have "if toordinal ?now + (0 - weekday ?now + 7) \<le> MAXORDINAL
        then \<exists>t. calculate_next_reminder ''weekly'' ''0,18:00'' ?now = Inr (strftime t)
               \<and> valid_datetime t \<and> microsecond t = 0
               \<and> strptime (strftime t) = (if 1000 \<le> year t then Inr t else Inl ValueError)
               \<and> toordinal t = toordinal ?now + (0 - weekday ?now + 7)
               \<and> toordinal ?now < toordinal t
               \<and> \<not> (year t = year ?now \<and> month t = month ?now \<and> day t = day ?now)
        else calculate_next_reminder ''weekly'' ''0,18:00'' ?now = Inl OverflowError"
    by (rule weekly_rolls_forward_seven_days [OF monday_morning_valid parse_monday_1800 _ _ _ _ _ _ off])
       simp_all
  then obtain t where
    t: "calculate_next_reminder ''weekly'' ''0,18:00'' ?now = Inr (strftime t)"
       "toordinal t = toordinal ?now + 7"
       "\<not> (year t = 2024 \<and> month t = 1 \<and> day t = 1)"
    by (simp add: monday_weekday monday_ordinals(1) MAXORDINAL_def) blast
  from t(1) have "strftime t = ''2024-01-08 18:00:00''"
    by (simp only: weekly_monday_run sum.inject)
  with t monday_morning_valid parse_monday_1800 off show ?thesis
    by blast
qed

text \<open>
  C3 (as amended). For a daily schedule with a valid \<open>HH:MM\<close> and any valid \<open>now\<close>:
  unless \<open>now\<close> lies on 9999-12-31 at or after \<open>HH:MM\<close> (then the roll to tomorrow
  raises \<open>OverflowError\<close>), \<open>calculate_next_reminder\<close> returns a text whose timestamp
  is strictly after \<open>now\<close> and at most 24 hours after \<open>now\<close>. With target 18:00 it
  returns 2024-01-01 18:00:00 at 2024-01-01 10:00:00 and 2024-01-02 18:00:00 at
  2024-01-01 19:00:00.
\<close>

theorem daily_next_within_24_hours:
  assumes "valid_datetime now" and "parse_hour_minute sv = Inr (h, mi)"
    and "0 \<le> h" "h \<le> 23" "0 \<le> mi" "mi \<le> 59"
  shows "(if toordinal now < MAXORDINAL \<or> hour now < h \<or> hour now = h \<and> minute now < mi
          then \<exists>t. calculate_next_reminder ''daily'' sv now = Inr (strftime t)
                 \<and> valid_datetime t \<and> microsecond t = 0
                 \<and> strptime (strftime t) = (if 1000 \<le> year t then Inr t else Inl ValueError)
                 \<and> dt_less now t
                 \<and> to_micro now < to_micro t \<and> to_micro t \<le> to_micro now + 86400000000
          else calculate_next_reminder ''daily'' sv now = Inl OverflowError)
         \<and> calculate_next_reminder ''daily'' ''18:00''
              \<lparr>year = 2024, month = 1, day = 1, hour = 10, minute = 0, second = 0,
                 microsecond = 0\<rparr> = Inr ''2024-01-01 18:00:00''
         \<and> calculate_next_reminder ''daily'' ''18:00''
              \<lparr>year = 2024, month = 1, day = 1, hour = 19, minute = 0, second = 0,
                 microsecond = 0\<rparr> = Inr ''2024-01-02 18:00:00''"
  using daily_general [OF assms] daily_morning_run daily_evening_run
  by (intro conjI)

theorem daily_next_within_24_hours_witness:
  "valid_datetime \<lparr>year = 2024, month = 1, day = 1, hour = 19, minute = 0, second = 0,
     microsecond = 0\<rparr>
   \<and> parse_hour_minute ''18:00'' = Inr (18, 0)
   \<and> (\<exists>t. calculate_next_reminder ''daily'' ''18:00''
          \<lparr>year = 2024, month = 1, day = 1, hour = 19, minute = 0, second = 0,
             microsecond = 0\<rparr> = Inr (strftime t)
        \<and> strptime (strftime t) = Inr t
        \<and> to_micro \<lparr>year = 2024, month = 1, day = 1, hour = 19, minute = 0, second = 0,
             microsecond = 0\<rparr> < to_micro t
        \<and> to_micro t \<le> to_micro \<lparr>year = 2024, month = 1, day = 1, hour = 19, minute = 0,
             second = 0, microsecond = 0\<rparr> + 86400000000)"
proof -
  let ?now = "\<lparr>year = 2024, month = 1, day = 1, hour = 19, minute = 0, second = 0,
                microsecond = 0\<rparr>"
  have o: "toordinal ?now = 738886" by code_simp
  have "(if toordinal ?now < MAXORDINAL \<or> hour ?now < 18 \<or> hour ?now = 18 \<and> minute ?now < 0
          then \<exists>t. calculate_next_reminder ''daily'' ''18:00'' ?now = Inr (strftime t)
                 \<and> valid_datetime t \<and> microsecond t = 0
                 \<and> strptime (strftime t) = (if 1000 \<le> year t then Inr t else Inl ValueError)
                 \<and> dt_less ?now t
                 \<and> to_micro ?now < to_micro t \<and> to_micro t \<le> to_micro ?now + 86400000000
          else calculate_next_reminder ''daily'' ''18:00'' ?now = Inl OverflowError)
         \<and> calculate_next_reminder ''daily'' ''18:00''
              \<lparr>year = 2024, month = 1, day = 1, hour = 10, minute = 0, second = 0,
                 microsecond = 0\<rparr> = Inr ''2024-01-01 18:00:00''
         \<and> calculate_next_reminder ''daily'' ''18:00''
              \<lparr>year = 2024, month = 1, day = 1, hour = 19, minute = 0, second = 0,
                 microsecond = 0\<rparr> = Inr ''2024-01-02 18:00:00''"
    by (rule daily_next_within_24_hours [OF monday_evening_valid parse_1800]) simp_all
  then have "if toordinal ?now < MAXORDINAL \<or> hour ?now < 18 \<or> hour ?now = 18 \<and> minute ?now < 0
          then \<exists>t. calculate_next_reminder ''daily'' ''18:00'' ?now = Inr (strftime t)
                 \<and> valid_datetime t \<and> microsecond t = 0
                 \<and> strptime (strftime t) = (if 1000 \<le> year t then Inr t else Inl ValueError)
                 \<and> dt_less ?now t
                 \<and> to_micro ?now < to_micro t \<and> to_micro t \<le> to_micro ?now + 86400000000
          else calculate_next_reminder ''daily'' ''18:00'' ?now = Inl OverflowError"
    by (rule conjunct1)
  then obtain t where
    t: "calculate_next_reminder ''daily'' ''18:00'' ?now = Inr (strftime t)"
       "strptime (strftime t) = (if 1000 \<le> year t then Inr t else Inl ValueError)"
       "dt_less ?now t" "to_micro ?now < to_micro t"
       "to_micro t \<le> to_micro ?now + 86400000000"
    by (simp add: o MAXORDINAL_def) blast
  from t(3) have "1000 \<le> year t"
    by (auto simp: dt_less_def)
  with t(2) have "strptime (strftime t) = Inr t"
    by simp
  with t(1,4,5) monday_evening_valid parse_1800 show ?thesis
    by blast
qed

theorem daily_last_day_counterexample:
  "valid_datetime \<lparr>year = 9999, month = 12, day = 31, hour = 19, minute = 0, second = 0,
     microsecond = 0\<rparr>
   \<and> parse_hour_minute ''18:00'' = Inr (18, 0)
   \<and> calculate_next_reminder ''daily'' ''18:00''
        \<lparr>year = 9999, month = 12, day = 31, hour = 19, minute = 0, second = 0,
           microsecond = 0\<rparr> = Inl OverflowError"
  using last_day_valid parse_1800 daily_last_day_run by (intro conjI)

text \<open>
  C4. For a monthly schedule \<open>"<day>,HH:MM"\<close> and a valid \<open>now\<close>, the target is
  \<open>now\<close> with day, hour and minute replaced (its seconds are kept). A day, hour or
  minute that does not fit a C \<open>int\<close> makes the call raise \<open>OverflowError\<close>. If the
  target is not a valid datetime (the day does not exist in the current month, or
  \<open>HH:MM\<close> is out of range) the call raises \<open>ValueError\<close>. If the target is after
  \<open>now\<close> it is the result. Otherwise the result is the same day, hour and minute in
  the next month: in December that is January of the next year (which does not exist
  after 9999), in the other months the month after, where the day must exist.
\<close>

theorem monthly_next_occurrence:
  assumes "valid_datetime now" and "parse_day_time sv = Inr (d, h, mi)"
    and "target = now\<lparr>day := d, hour := h, minute := mi\<rparr>"
  shows "calculate_next_reminder ''monthly'' sv now =
           (if \<not> (c_int d \<and> c_int h \<and> c_int mi) then Inl OverflowError
            else if \<not> valid_datetime target then Inl ValueError
            else if dt_less now target then Inr (strftime target)
            else if month now = 12
              then (if year now < 9999
                    then Inr (strftime (target\<lparr>year := year now + 1, month := 1\<rparr>))
                    else Inl ValueError)
            else if d \<le> days_in_month (year now) (month now + 1)
              then Inr (strftime (target\<lparr>month := month now + 1\<rparr>))
            else Inl ValueError)"
proof -
  have "calculate_next_time ''monthly'' sv now =
           (if \<not> (c_int d \<and> c_int h \<and> c_int mi) then Inl OverflowError
            else if \<not> valid_datetime target then Inl ValueError
            else if dt_less now target then Inr target
            else if month now = 12
              then (if year now < 9999 then Inr (target\<lparr>year := year now + 1, month := 1\<rparr>)
                    else Inl ValueError)
            else if d \<le> days_in_month (year now) (month now + 1)
              then Inr (target\<lparr>month := month now + 1\<rparr>)
            else Inl ValueError)"
    by (rule monthly_core [OF assms(1,2) _ _ assms(3)]) simp_all
  then show ?thesis
    by (simp add: calculate_next_reminder_def)
qed

theorem monthly_next_occurrence_witness:
  "valid_datetime \<lparr>year = 2024, month = 12, day = 15, hour = 10, minute = 0, second = 0,
     microsecond = 0\<rparr>
   \<and> parse_day_time ''10,09:30'' = Inr (10, 9, 30)
   \<and> calculate_next_reminder ''monthly'' ''10,09:30''
        \<lparr>year = 2024, month = 12, day = 15, hour = 10, minute = 0, second = 0,
           microsecond = 0\<rparr> = Inr ''2025-01-10 09:30:00''"
  using monthly_next_occurrence [OF december_facts(1) december_facts(2) refl]
  by (simp add: december_facts dt_less_def c_int_def)

section \<open>The branches and the effects of the handler\<close>

lemma jobs_rescheduled:
  "add_job (if get_job js i \<noteq> None then remove_job js i else js) i j = Inr (js(i \<mapsto> j))"
  by (simp add: add_job_def get_job_def remove_job_def)

lemma peer_branch:
  assumes "\<not> reactor_is_bot ev" and "message_mentions ev = mentioned # others"
    and "reactor_id ev \<noteq> mentioned" and "is_peer_verification ev"
    and "fetchone (select_by_user_channel (db s) mentioned (message_channel_id ev)) = Some r"
    and "verification_message_id r = Some (message_id ev)"
  shows "on_reaction_add env ev s =
           (if emoji ev = ThumbsUp then peer_confirm env ev mentioned r s
            else if emoji ev = ThumbsDown then peer_reject env ev mentioned r s
            else s)"
  using assms by (simp add: on_reaction_add_def)

lemma self_report_branch:
  assumes "message_mentions ev = mentioned # others" and "reactor_id ev = mentioned"
  shows "on_reaction_add env ev s =
           (if reactor_is_bot ev \<or> message_author_id ev \<noteq> bot_user_id env then s
            else case fetchone (select_by_user_channel (db s) mentioned (message_channel_id ev)) of
                   None \<Rightarrow> s
                 | Some r \<Rightarrow>
                     if emoji ev = ThumbsUp then self_report_done env ev mentioned r s
                     else if emoji ev = ThumbsDown then self_report_postpone env ev mentioned r s
                     else s)"
  using assms by (simp add: on_reaction_add_def)

lemma update_where_id_id: "update_where_id (\<lambda>x. x) i rows = rows"
  by (induction rows) (simp_all add: update_where_id_def)

lemma update_where_id_rel:
  "(\<And>x. P x x) \<Longrightarrow> (\<And>x. P x (f x)) \<Longrightarrow> list_all2 P rows (update_where_id f i rows)"
  by (induction rows) (simp_all add: update_where_id_def)

lemma self_report_done_effects:
  "\<exists>f. self_report_write f
       \<and> db (self_report_done env ev a r s) = update_where_id f (rid r) (db s)"
  "jobs (self_report_done env ev a r s) = jobs s"
  "filter (is_verdict \<circ> body) (outbox (self_report_done env ev a r s))
     = filter (is_verdict \<circ> body) (outbox s)"
proof -
  show "\<exists>f. self_report_write f
       \<and> db (self_report_done env ev a r s) = update_where_id f (rid r) (db s)"
  proof (cases "find (\<lambda>name. name = ''Peer'') (guild_roles ev)")
    case None
    have "self_report_write (\<lambda>x. x)" by (simp add: self_report_write_def)
    moreover have "db (self_report_done env ev a r s) = update_where_id (\<lambda>x. x) (rid r) (db s)"
      using None by (simp add: self_report_done_def send_def Let_def update_where_id_id)
    ultimately show ?thesis by blast
  next
    case (Some p)
    let ?f = "\<lambda>x. x\<lparr>verification_message_id := Some (new_message_id env (length (outbox s)))\<rparr>"
    have "self_report_write ?f" by (simp add: self_report_write_def)
    moreover have "db (self_report_done env ev a r s) = update_where_id ?f (rid r) (db s)"
      using Some by (simp add: self_report_done_def send_def Let_def)
    ultimately show ?thesis by blast
  qed
  show "jobs (self_report_done env ev a r s) = jobs s"
    by (simp add: self_report_done_def send_def Let_def split: option.splits)
  show "filter (is_verdict \<circ> body) (outbox (self_report_done env ev a r s))
     = filter (is_verdict \<circ> body) (outbox s)"
    by (simp add: self_report_done_def send_def Let_def is_verdict_def split: option.splits)
qed

lemma self_report_postpone_effects:
  "\<exists>f. self_report_write f
       \<and> db (self_report_postpone env ev a r s) = update_where_id f (rid r) (db s)"
  "jobs (self_report_postpone env ev a r s) (FollowupJob i) = jobs s (FollowupJob i)"
  "filter (is_verdict \<circ> body) (outbox (self_report_postpone env ev a r s))
     = filter (is_verdict \<circ> body) (outbox s)"
proof -
  show "\<exists>f. self_report_write f
       \<and> db (self_report_postpone env ev a r s) = update_where_id f (rid r) (db s)"
  proof (cases "plus_days_hours (clock env 0) 0 1")
    case (Inl e)
    have "self_report_write (\<lambda>x. x)" by (simp add: self_report_write_def)
    moreover have "db (self_report_postpone env ev a r s) = update_where_id (\<lambda>x. x) (rid r) (db s)"
      using Inl
      by (simp add: self_report_postpone_def report_error_def send_def Let_def update_where_id_id)
    ultimately show ?thesis by blast
  next
    case (Inr t)
    let ?f = "\<lambda>x. x\<lparr>next_reminder := strftime t,
                      retry_count := Some (case retry_count r of None \<Rightarrow> 1 | Some c \<Rightarrow> c + 1)\<rparr>"
    have "self_report_write ?f" by (simp add: self_report_write_def)
    moreover have "db (self_report_postpone env ev a r s) = update_where_id ?f (rid r) (db s)"
      using Inr
      by (simp add: self_report_postpone_def report_error_def send_def Let_def
          split: sum.splits)
    ultimately show ?thesis by blast
  qed
  show "jobs (self_report_postpone env ev a r s) (FollowupJob i) = jobs s (FollowupJob i)"
    by (simp add: self_report_postpone_def report_error_def send_def Let_def add_job_def
        split: sum.splits if_splits)
  show "filter (is_verdict \<circ> body) (outbox (self_report_postpone env ev a r s))
     = filter (is_verdict \<circ> body) (outbox s)"
    by (simp add: self_report_postpone_def report_error_def send_def Let_def is_verdict_def
        split: sum.splits)
qed

lemma self_report_ignores_message_id:
  "self_report_done env (ev\<lparr>message_id := m\<rparr>) a r s = self_report_done env ev a r s"
  "self_report_postpone env (ev\<lparr>message_id := m\<rparr>) a r s = self_report_postpone env ev a r s"
  by (simp_all add: self_report_done_def self_report_postpone_def Let_def
      cong: option.case_cong sum.case_cong)

lemma self_report_ignores_roles:
  "self_report_done env (ev\<lparr>reactor_roles := rs\<rparr>) a r s = self_report_done env ev a r s"
  "self_report_postpone env (ev\<lparr>reactor_roles := rs\<rparr>) a r s = self_report_postpone env ev a r s"
  by (simp_all add: self_report_done_def self_report_postpone_def Let_def
      cong: option.case_cong sum.case_cong)

lemma fetchone_select:
  "fetchone (select_by_user_channel rows uid cid)
     = find (\<lambda>x. user_id x = uid \<and> channel_id x = cid) rows"
  by (induction rows) (simp_all add: select_by_user_channel_def fetchone_def)

lemma find_named: "(find (\<lambda>name. name = c) xs = None) = (c \<notin> set xs)"
  by (auto simp: find_None_iff)

lemma self_report_done_db:
  "db (self_report_done env ev a r s)
     = (if ''Peer'' \<in> set (guild_roles ev)
        then map (\<lambda>x. if rid x = rid r
                       then x\<lparr>verification_message_id :=
                                Some (new_message_id env (length (outbox s)))\<rparr>
                       else x) (db s)
        else db s)"
proof (cases "find (\<lambda>name. name = ''Peer'') (guild_roles ev)")
  case None
  then have "''Peer'' \<notin> set (guild_roles ev)"
    by (simp add: find_named)
  with None show ?thesis
    by (simp add: self_report_done_def send_def Let_def)
next
  case (Some p)
  then have "find (\<lambda>name. name = ''Peer'') (guild_roles ev) \<noteq> None"
    by simp
  then have "''Peer'' \<in> set (guild_roles ev)"
    by (simp add: find_named)
  with Some show ?thesis
    by (simp add: self_report_done_def send_def Let_def update_where_id_def)
qed

lemma self_report_other_jobs:
  assumes "i \<noteq> ReminderJob (rid r)"
  shows "jobs (self_report_done env ev a r s) i = jobs s i"
    and "jobs (self_report_postpone env ev a r s) i = jobs s i"
proof -
  show "jobs (self_report_done env ev a r s) i = jobs s i"
    by (simp add: self_report_done_effects(2))
  show "jobs (self_report_postpone env ev a r s) i = jobs s i"
    using assms
    by (simp add: self_report_postpone_def report_error_def send_def Let_def add_job_def
        split: sum.splits if_splits)
qed

lemma self_report_postpone_db:
  "db (self_report_postpone env ev a r s)
     = (case plus_days_hours (clock env 0) 0 1 of
          Inl e \<Rightarrow> db s
        | Inr t \<Rightarrow>
            map (\<lambda>x. if rid x = rid r
                     then x\<lparr>next_reminder := strftime t,
                            retry_count :=
                              Some (case retry_count r of None \<Rightarrow> 1 | Some c \<Rightarrow> c + 1)\<rparr>
                     else x) (db s))"
  by (simp add: self_report_postpone_def report_error_def send_def Let_def update_where_id_def
      split: sum.splits)

subsection \<open>The postponement and the rejection when no job is in the way\<close>

text \<open>
  The postponement as the handler performs it when no reminder job of the row is
  pending and the year has four digits: \<open>retry_count\<close> goes up by one (from \<open>NULL\<close>
  to 1), \<open>next_reminder\<close> is the text of the time one hour after the reading of the
  clock, and the reminder job is scheduled at that time, cut to whole seconds by the
  text.
\<close>

lemma postpone_transition:
  assumes "\<not> reactor_is_bot ev" and "message_mentions ev = mentioned # others"
    and "reactor_id ev = mentioned" and "message_author_id ev = bot_user_id env"
    and "fetchone (select_by_user_channel (db s) mentioned (message_channel_id ev)) = Some r"
    and "emoji ev = ThumbsDown" and "valid_datetime (clock env 0)"
    and "plus_days_hours (clock env 0) 0 1 = Inr t"
    and "jobs s (ReminderJob (rid r)) = None"
    and "1000 \<le> year t"
  shows "db (on_reaction_add env ev s)
           = update_where_id
               (\<lambda>x. x\<lparr>next_reminder := strftime t,
                       retry_count := Some (case retry_count r of None \<Rightarrow> 1 | Some c \<Rightarrow> c + 1)\<rparr>)
               (rid r) (db s)"
    and "jobs (on_reaction_add env ev s)
           = (jobs s)(ReminderJob (rid r) \<mapsto>
                \<lparr>func = SendReminder, run_date = t\<lparr>microsecond := 0\<rparr>, args = rid r\<rparr>)"
    and "to_micro t = to_micro (clock env 0) + 3600000000"
proof -
  note h = plus_one_hour [OF assms(7,8)]
  have run: "on_reaction_add env ev s = self_report_postpone env ev mentioned r s"
    using self_report_branch [OF assms(2,3), of env s] assms(1,4,5,6) by simp
  show "db (on_reaction_add env ev s)
           = update_where_id
               (\<lambda>x. x\<lparr>next_reminder := strftime t,
                       retry_count := Some (case retry_count r of None \<Rightarrow> 1 | Some c \<Rightarrow> c + 1)\<rparr>)
               (rid r) (db s)"
    by (simp add: run self_report_postpone_def assms(8,9) strptime_strftime [OF h(2) assms(10)]
        add_job_def send_def Let_def)
  show "jobs (on_reaction_add env ev s)
           = (jobs s)(ReminderJob (rid r) \<mapsto>
                \<lparr>func = SendReminder, run_date = t\<lparr>microsecond := 0\<rparr>, args = rid r\<rparr>)"
    by (simp add: run self_report_postpone_def assms(8,9) strptime_strftime [OF h(2) assms(10)]
        add_job_def send_def Let_def)
  show "to_micro t = to_micro (clock env 0) + 3600000000"
    by (rule h(1))
qed

text \<open>
  The rejection as the handler performs it when no follow-up job of the row is
  pending and the year has four digits: the rejection notice is sent and recorded as the reminder message, the
  verification message is cleared, \<open>next_reminder\<close> is the text of the time one hour
  after the first reading of the clock, the reminder job is rescheduled at that time
  (cut to whole seconds), and the follow-up job is added one hour after the second
  reading of the clock. The row then awaits the self-report.
\<close>

lemma reject_transition:
  assumes "\<not> reactor_is_bot ev" and "message_mentions ev = mentioned # others"
    and "reactor_id ev \<noteq> mentioned" and "is_peer_verification ev"
    and "fetchone (select_by_user_channel (db s) mentioned (message_channel_id ev)) = Some r"
    and "verification_message_id r = Some (message_id ev)" and "emoji ev = ThumbsDown"
    and "valid_datetime (clock env 0)"
    and "plus_days_hours (clock env 0) 0 1 = Inr t"
    and "plus_days_hours (clock env 1) 0 1 = Inr t'"
    and "jobs s (FollowupJob (rid r)) = None"
    and "new_id = new_message_id env (length (outbox s))"
    and "1000 \<le> year t"
  shows "db (on_reaction_add env ev s)
           = update_where_id
               (\<lambda>x. x\<lparr>next_reminder := strftime t, verification_message_id := None,
                       last_message_id := Some new_id\<rparr>) (rid r) (db s)"
    and "jobs (on_reaction_add env ev s)
           = (jobs s)(ReminderJob (rid r) \<mapsto>
                        \<lparr>func = SendReminder, run_date = t\<lparr>microsecond := 0\<rparr>, args = rid r\<rparr>,
                      FollowupJob (rid r) \<mapsto>
                        \<lparr>func = SendFollowupReminder, run_date = t', args = rid r\<rparr>)"
    and "outbox (on_reaction_add env ev s)
           = outbox s @ [\<lparr>to_channel = message_channel_id ev,
                          body = Rejection mentioned (reactor_id ev), sent_id = new_id,
                          reactions = [ThumbsUp]\<rparr>]"
    and "spec_state (r\<lparr>next_reminder := strftime t, verification_message_id := None,
                       last_message_id := Some new_id\<rparr>) = AwaitingSelfReport"
proof -
  note h = plus_one_hour [OF assms(8,9)]
  have run: "on_reaction_add env ev s = peer_reject env ev mentioned r s"
    using peer_branch [OF assms(1-6), of env] assms(7) by simp
  have c1: "plus_days_hours (clock env (Suc 0)) 0 1 = Inr t'"
    using assms(10) by simp
  have e: "peer_reject env ev mentioned r s
             = s\<lparr>outbox := outbox s @ [\<lparr>to_channel = message_channel_id ev,
                          body = Rejection mentioned (reactor_id ev), sent_id = new_id,
                          reactions = [ThumbsUp]\<rparr>],
                  db := update_where_id
                          (\<lambda>x. x\<lparr>next_reminder := strftime t, verification_message_id := None,
                                  last_message_id := Some new_id\<rparr>) (rid r) (db s),
                  jobs := (jobs s)(ReminderJob (rid r) \<mapsto>
                             \<lparr>func = SendReminder, run_date = t\<lparr>microsecond := 0\<rparr>,
                                args = rid r\<rparr>,
                           FollowupJob (rid r) \<mapsto>
                             \<lparr>func = SendFollowupReminder, run_date = t', args = rid r\<rparr>)\<rparr>"
    by (simp add: peer_reject_def assms(9,11,12) c1 strptime_strftime [OF h(2) assms(13)]
        add_job_def get_job_def remove_job_def send_def Let_def)
  show "db (on_reaction_add env ev s)
           = update_where_id
               (\<lambda>x. x\<lparr>next_reminder := strftime t, verification_message_id := None,
                       last_message_id := Some new_id\<rparr>) (rid r) (db s)"
    by (simp add: run e)
  show "jobs (on_reaction_add env ev s)
           = (jobs s)(ReminderJob (rid r) \<mapsto>
                        \<lparr>func = SendReminder, run_date = t\<lparr>microsecond := 0\<rparr>, args = rid r\<rparr>,
                      FollowupJob (rid r) \<mapsto>
                        \<lparr>func = SendFollowupReminder, run_date = t', args = rid r\<rparr>)"
    by (simp add: run e)
  show "outbox (on_reaction_add env ev s)
           = outbox s @ [\<lparr>to_channel = message_channel_id ev,
                          body = Rejection mentioned (reactor_id ev), sent_id = new_id,
                          reactions = [ThumbsUp]\<rparr>]"
    by (simp add: run e)
  show "spec_state (r\<lparr>next_reminder := strftime t, verification_message_id := None,
                       last_message_id := Some new_id\<rparr>) = AwaitingSelfReport"
    by (simp add: spec_state_def)
qed

section \<open>The claims about the reaction handler\<close>

text \<open>
  C5 (the code at the failing input). The assignee postpones "dishes" at 09:30: the
  row awaits the self-report and its reminder job waits for 10:30. The assignee
  reacts with thumbs down again at 10:00: the row is written (\<open>retry_count\<close> 2,
  \<open>next_reminder\<close> 11:00), but \<open>add_job\<close> raises \<open>ConflictingIdError\<close>, the job stays
  at 10:30, and the failure notice is sent.
\<close>

theorem postpone_with_pending_job_run:
  "map spec_state (db postponed_once) = [AwaitingSelfReport]
   \<and> jobs postponed_once (ReminderJob 1)
       = Some \<lparr>func = SendReminder, run_date = half_past_ten, args = 1\<rparr>
   \<and> db (on_reaction_add scene_env (assignee_reacts ThumbsDown 10) postponed_once)
       = [dishes\<lparr>next_reminder := ''2024-01-01 11:00:00'', retry_count := Some 2\<rparr>]
   \<and> strptime ''2024-01-01 11:00:00'' = Inr eleven
   \<and> jobs (on_reaction_add scene_env (assignee_reacts ThumbsDown 10) postponed_once)
         (ReminderJob 1)
       = Some \<lparr>func = SendReminder, run_date = half_past_ten, args = 1\<rparr>
   \<and> log (on_reaction_add scene_env (assignee_reacts ThumbsDown 10) postponed_once)
       = [ConflictingIdError]
   \<and> map body (outbox (on_reaction_add scene_env (assignee_reacts ThumbsDown 10) postponed_once))
       = [Postponed 7 ''2024-01-01 10:30:00'', PostponeError]"
  by code_simp

text \<open>
  C6 (the code at the failing input). A peer rejects "dishes" at 09:30, which
  schedules the reminder job and the follow-up job for 10:30, and the assignee claims
  completion again, so that the row awaits peer verification on message 1001. A peer
  reacts with thumbs down on message 1001 at 10:00: the rejection is sent, the row is
  written, the reminder job is moved to 11:00, but the \<open>add_job\<close> of the follow-up
  raises \<open>ConflictingIdError\<close>, so the follow-up job stays at 10:30 and the failure
  notice is sent.
\<close>

theorem reject_with_pending_followup_run:
  "map spec_state (db rejected_then_claimed) = [AwaitingPeerVerification]
   \<and> map verification_message_id (db rejected_then_claimed)
       = [Some (message_id (peer_reacts ThumbsDown 1001))]
   \<and> jobs rejected_then_claimed (FollowupJob 1)
       = Some \<lparr>func = SendFollowupReminder, run_date = half_past_ten, args = 1\<rparr>
   \<and> db (on_reaction_add scene_env (peer_reacts ThumbsDown 1001) rejected_then_claimed)
       = [dishes\<lparr>next_reminder := ''2024-01-01 11:00:00'', last_message_id := Some 1002\<rparr>]
   \<and> jobs (on_reaction_add scene_env (peer_reacts ThumbsDown 1001) rejected_then_claimed)
         (ReminderJob 1)
       = Some \<lparr>func = SendReminder, run_date = eleven, args = 1\<rparr>
   \<and> jobs (on_reaction_add scene_env (peer_reacts ThumbsDown 1001) rejected_then_claimed)
         (FollowupJob 1)
       = Some \<lparr>func = SendFollowupReminder, run_date = half_past_ten, args = 1\<rparr>
   \<and> plus_days_hours (clock scene_env 1) 0 1 = Inr eleven
   \<and> log (on_reaction_add scene_env (peer_reacts ThumbsDown 1001) rejected_then_claimed)
       = [ConflictingIdError]
   \<and> map body (outbox (on_reaction_add scene_env (peer_reacts ThumbsDown 1001)
         rejected_then_claimed))
       = [Rejection 7 8, VerificationRequest 7 ''dishes'', Rejection 7 8, VerificationError]"
  by code_simp






lemma stale_scene:
  "message_mentions (peer_reacts ThumbsUp 30) = 7 # []"
  "reactor_id (peer_reacts ThumbsUp 30) \<noteq> 7"
  "is_peer_verification (peer_reacts ThumbsUp 30)"
  "fetchone (select_by_user_channel (db awaiting_peer) 7
      (message_channel_id (peer_reacts ThumbsUp 30)))
     = Some (dishes\<lparr>verification_message_id := Some 20\<rparr>)"
  "verification_message_id (dishes\<lparr>verification_message_id := Some 20\<rparr>)
     \<noteq> Some (message_id (peer_reacts ThumbsUp 30))"
  by code_simp+

text \<open>
  C8. A reaction by anyone but the assignee mentioned first in the message (in
  particular by a member with the peer role), on a message whose id is not the
  \<open>verification_message_id\<close> of the row that the store returns for that assignee and
  the message's channel (or when there is no such row), leaves the whole state as it
  is: no row is written, no job is touched, nothing is sent or logged.
\<close>

theorem stale_verification_reaction_ignored:
  assumes "message_mentions ev = mentioned # others" and "reactor_id ev \<noteq> mentioned"
    and "\<forall>r. fetchone (select_by_user_channel (db s) mentioned (message_channel_id ev)) = Some r
             \<longrightarrow> verification_message_id r \<noteq> Some (message_id ev)"
  shows "on_reaction_add env ev s = s"
proof (cases "fetchone (select_by_user_channel (db s) mentioned (message_channel_id ev))")
  case None
  then show ?thesis
    using assms(1,2) by (simp add: on_reaction_add_def)
next
  case (Some r)
  with assms(3) have "verification_message_id r \<noteq> Some (message_id ev)" by simp
  with Some show ?thesis
    using assms(1,2) by (simp add: on_reaction_add_def)
qed

theorem stale_verification_reaction_ignored_witness:
  "is_peer_verification (peer_reacts ThumbsUp 30)
   \<and> fetchone (select_by_user_channel (db awaiting_peer) 7
        (message_channel_id (peer_reacts ThumbsUp 30)))
       = Some (dishes\<lparr>verification_message_id := Some 20\<rparr>)
   \<and> verification_message_id (dishes\<lparr>verification_message_id := Some 20\<rparr>)
       \<noteq> Some (message_id (peer_reacts ThumbsUp 30))
   \<and> on_reaction_add scene_env (peer_reacts ThumbsUp 30) awaiting_peer = awaiting_peer"
proof -
  have "\<forall>r. fetchone (select_by_user_channel (db awaiting_peer) 7
               (message_channel_id (peer_reacts ThumbsUp 30))) = Some r
             \<longrightarrow> verification_message_id r \<noteq> Some (message_id (peer_reacts ThumbsUp 30))"
    using stale_scene(5) by (simp add: stale_scene(4))
  from stale_verification_reaction_ignored [OF stale_scene(1,2) this]
  show ?thesis using stale_scene(3,4,5) by blast
qed

lemma two_reminders_scene:
  "message_mentions (assignee_reacts ThumbsDown 11) = 7 # []"
  "reactor_id (assignee_reacts ThumbsDown 11) = 7"
  "last_message_id laundry = Some (message_id (assignee_reacts ThumbsDown 11))"
  "db (on_reaction_add scene_env (assignee_reacts ThumbsDown 11) two_reminders)
     = [dishes\<lparr>next_reminder := ''2024-01-01 11:00:00'', retry_count := Some 1\<rparr>, laundry]"
  "\<not> reactor_is_bot (assignee_reacts ThumbsDown 11)"
  "message_author_id (assignee_reacts ThumbsDown 11) = bot_user_id scene_env"
  "emoji (assignee_reacts ThumbsDown 11) = ThumbsDown"
  "find (\<lambda>x. user_id x = 7 \<and> channel_id x = message_channel_id (assignee_reacts ThumbsDown 11))
     (db two_reminders) = Some dishes"
  "plus_days_hours (clock scene_env 0) 0 1 = Inr eleven"
  "db two_reminders = [dishes, laundry]"
  by code_simp+

text \<open>
  C9. For a reaction of the assignee mentioned first in the message, the outcome of
  the handler does not depend on the id of the reacted message. Unless the reactor is
  a bot or the message is not the bot's own (then nothing happens), the row is the
  first row of the store whose \<open>user_id\<close> is the assignee and whose \<open>channel_id\<close> is
  the channel of the message. If there is no such row nothing happens. Otherwise the
  reaction is applied to that row \<open>r\<close>: thumbs up records the new verification
  message in the rows with the id of \<open>r\<close> and asks the peers about the chore of
  \<open>r\<close> (when the guild has the role "Peer"; it writes nothing otherwise), thumbs down
  writes the time one hour ahead and \<open>retry_count\<close> of \<open>r\<close> plus one into the rows
  with the id of \<open>r\<close> (unless that time overflows), any other emoji changes nothing;
  no job but the reminder job of \<open>r\<close> is touched.
  So the row need not be the one whose message was reacted to: with "dishes" and
  "laundry" of one assignee in one channel, thumbs down on the message of "laundry"
  postpones "dishes" and leaves "laundry" as it is.
\<close>

theorem self_report_selects_by_user_and_channel:
  assumes "message_mentions ev = mentioned # others" and "reactor_id ev = mentioned"
  shows "on_reaction_add env (ev\<lparr>message_id := m\<rparr>) s = on_reaction_add env ev s
         \<and> (if reactor_is_bot ev \<or> message_author_id ev \<noteq> bot_user_id env
             then on_reaction_add env ev s = s
             else case find (\<lambda>x. user_id x = mentioned \<and> channel_id x = message_channel_id ev)
                         (db s) of
               None \<Rightarrow> on_reaction_add env ev s = s
             | Some r \<Rightarrow>
                 db (on_reaction_add env ev s)
                   = (if emoji ev = ThumbsUp then
                        (if ''Peer'' \<in> set (guild_roles ev)
                         then map (\<lambda>x. if rid x = rid r
                                        then x\<lparr>verification_message_id :=
                                                 Some (new_message_id env (length (outbox s)))\<rparr>
                                        else x) (db s)
                         else db s)
                      else if emoji ev = ThumbsDown then
                        (case plus_days_hours (clock env 0) 0 1 of
                           Inl e \<Rightarrow> db s
                         | Inr t \<Rightarrow>
                             map (\<lambda>x. if rid x = rid r
                                      then x\<lparr>next_reminder := strftime t,
                                             retry_count :=
                                               Some (case retry_count r of
                                                       None \<Rightarrow> 1 | Some c \<Rightarrow> c + 1)\<rparr>
                                      else x) (db s))
                      else db s)
                 \<and> (emoji ev = ThumbsUp \<and> ''Peer'' \<in> set (guild_roles ev)
                    \<longrightarrow> map body (outbox (on_reaction_add env ev s))
                          = map body (outbox s) @ [VerificationRequest mentioned (chore_name r)])
                 \<and> (\<forall>i. i \<noteq> ReminderJob (rid r)
                        \<longrightarrow> jobs (on_reaction_add env ev s) i = jobs s i))
         \<and> db two_reminders = [dishes, laundry]
         \<and> last_message_id laundry = Some (message_id (assignee_reacts ThumbsDown 11))
         \<and> db (on_reaction_add scene_env (assignee_reacts ThumbsDown 11) two_reminders)
             = [dishes\<lparr>next_reminder := ''2024-01-01 11:00:00'', retry_count := Some 1\<rparr>,
                laundry]"
proof -
  note br = self_report_branch [OF assms, unfolded fetchone_select]
  have m: "message_mentions (ev\<lparr>message_id := m\<rparr>) = mentioned # others"
    "reactor_id (ev\<lparr>message_id := m\<rparr>) = mentioned"
    using assms by simp_all
  have a: "on_reaction_add env (ev\<lparr>message_id := m\<rparr>) s = on_reaction_add env ev s"
    unfolding self_report_branch [OF m] self_report_branch [OF assms]
    by (simp add: self_report_ignores_message_id split: option.splits)
  have o: "map body (outbox (self_report_done env ev mentioned r s))
             = map body (outbox s) @ [VerificationRequest mentioned (chore_name r)]"
    if "''Peer'' \<in> set (guild_roles ev)" for r
  proof (cases "find (\<lambda>name. name = ''Peer'') (guild_roles ev)")
    case None
    with that show ?thesis by (simp add: find_named)
  next
    case (Some p)
    then show ?thesis
      by (simp add: self_report_done_def send_def Let_def)
  qed
  have b: "if reactor_is_bot ev \<or> message_author_id ev \<noteq> bot_user_id env
           then on_reaction_add env ev s = s
           else case find (\<lambda>x. user_id x = mentioned \<and> channel_id x = message_channel_id ev)
                       (db s) of
             None \<Rightarrow> on_reaction_add env ev s = s
           | Some r \<Rightarrow>
               db (on_reaction_add env ev s)
                 = (if emoji ev = ThumbsUp then
                      (if ''Peer'' \<in> set (guild_roles ev)
                       then map (\<lambda>x. if rid x = rid r
                                      then x\<lparr>verification_message_id :=
                                               Some (new_message_id env (length (outbox s)))\<rparr>
                                      else x) (db s)
                       else db s)
                    else if emoji ev = ThumbsDown then
                      (case plus_days_hours (clock env 0) 0 1 of
                         Inl e \<Rightarrow> db s
                       | Inr t \<Rightarrow>
                           map (\<lambda>x. if rid x = rid r
                                    then x\<lparr>next_reminder := strftime t,
                                           retry_count :=
                                             Some (case retry_count r of
                                                     None \<Rightarrow> 1 | Some c \<Rightarrow> c + 1)\<rparr>
                                    else x) (db s))
                    else db s)
               \<and> (emoji ev = ThumbsUp \<and> ''Peer'' \<in> set (guild_roles ev)
                  \<longrightarrow> map body (outbox (on_reaction_add env ev s))
                        = map body (outbox s) @ [VerificationRequest mentioned (chore_name r)])
               \<and> (\<forall>i. i \<noteq> ReminderJob (rid r)
                      \<longrightarrow> jobs (on_reaction_add env ev s) i = jobs s i)"
  proof (cases "reactor_is_bot ev \<or> message_author_id ev \<noteq> bot_user_id env")
    case True
    then show ?thesis
      unfolding br by simp
  next
    case False
    show ?thesis
    proof (cases "find (\<lambda>x. user_id x = mentioned \<and> channel_id x = message_channel_id ev)
                    (db s)")
      case None
      with False show ?thesis
        unfolding br by simp
    next
      case (Some r)
      have run: "on_reaction_add env ev s
                   = (if emoji ev = ThumbsUp then self_report_done env ev mentioned r s
                      else if emoji ev = ThumbsDown
                        then self_report_postpone env ev mentioned r s
                      else s)"
        unfolding br using False Some by simp
      show ?thesis
        unfolding if_not_P [OF False] Some option.case run
        by (simp add: self_report_done_db self_report_postpone_db o self_report_other_jobs)
    qed
  qed
  from a b two_reminders_scene(10,3,4) show ?thesis
    by (intro conjI)
qed

theorem self_report_selects_by_user_and_channel_witness:
  "message_mentions (assignee_reacts ThumbsDown 11) = 7 # []
   \<and> reactor_id (assignee_reacts ThumbsDown 11) = 7
   \<and> \<not> reactor_is_bot (assignee_reacts ThumbsDown 11)
   \<and> message_author_id (assignee_reacts ThumbsDown 11) = bot_user_id scene_env
   \<and> find (\<lambda>x. user_id x = 7 \<and> channel_id x = message_channel_id (assignee_reacts ThumbsDown 11))
        (db two_reminders) = Some dishes
   \<and> on_reaction_add scene_env ((assignee_reacts ThumbsDown 11)\<lparr>message_id := 10\<rparr>)
         two_reminders
       = on_reaction_add scene_env (assignee_reacts ThumbsDown 11) two_reminders
   \<and> db (on_reaction_add scene_env (assignee_reacts ThumbsDown 11) two_reminders)
       = map (\<lambda>x. if rid x = rid dishes
                  then x\<lparr>next_reminder := strftime eleven,
                         retry_count :=
                           Some (case retry_count dishes of None \<Rightarrow> 1 | Some c \<Rightarrow> c + 1)\<rparr>
                  else x) (db two_reminders)"
  using self_report_selects_by_user_and_channel
          [OF two_reminders_scene(1,2), of scene_env 10 two_reminders]
        two_reminders_scene(1,2,5,6,8)
  by (simp add: two_reminders_scene(5,6,7,8,9))

lemma own_verification_scene:
  "message_mentions ((peer_reacts ThumbsDown 20)\<lparr>reactor_id := 7\<rparr>) = 7 # []"
  "reactor_id ((peer_reacts ThumbsDown 20)\<lparr>reactor_id := 7\<rparr>) = 7"
  "is_peer_verification ((peer_reacts ThumbsDown 20)\<lparr>reactor_id := 7\<rparr>)"
  "map verification_message_id (db awaiting_peer)
     = [Some (message_id ((peer_reacts ThumbsDown 20)\<lparr>reactor_id := 7\<rparr>))]"
  "db (on_reaction_add scene_env ((peer_reacts ThumbsDown 20)\<lparr>reactor_id := 7\<rparr>) awaiting_peer)
     = [dishes\<lparr>next_reminder := ''2024-01-01 11:00:00'', retry_count := Some 1,
               verification_message_id := Some 20\<rparr>]"
  by code_simp+

text \<open>
  C10. For a reaction of the assignee mentioned first in the message, the roles of
  the reactor play no part: the handler does what it does for a reactor without any
  role, so the peer branch is not taken even by an assignee who holds the peer role.
  Accordingly such a reaction never does what a peer's verdict does: it adds no
  follow-up job, clears no recorded verification message, changes no recorded
  reminder message, and sends neither the "verified" nor the "rejected" notice.
\<close>

theorem assignee_never_takes_peer_branch:
  assumes "message_mentions ev = mentioned # others" and "reactor_id ev = mentioned"
  shows "on_reaction_add env ev s = on_reaction_add env (ev\<lparr>reactor_roles := []\<rparr>) s
         \<and> (\<forall>i. jobs (on_reaction_add env ev s) (FollowupJob i) = jobs s (FollowupJob i))
         \<and> list_all2 (\<lambda>x y. verification_message_id x \<noteq> None
                               \<longrightarrow> verification_message_id y \<noteq> None)
              (db s) (db (on_reaction_add env ev s))
         \<and> map last_message_id (db (on_reaction_add env ev s)) = map last_message_id (db s)
         \<and> filter (is_verdict \<circ> body) (outbox (on_reaction_add env ev s))
             = filter (is_verdict \<circ> body) (outbox s)"
proof -
  note br = self_report_branch [OF assms]
  have m: "message_mentions (ev\<lparr>reactor_roles := []\<rparr>) = mentioned # others"
    "reactor_id (ev\<lparr>reactor_roles := []\<rparr>) = mentioned"
    using assms by simp_all
  have a: "on_reaction_add env ev s = on_reaction_add env (ev\<lparr>reactor_roles := []\<rparr>) s"
    unfolding self_report_branch [OF m] br
    by (simp add: self_report_ignores_roles split: option.splits)
  have j: "jobs (on_reaction_add env ev s) (FollowupJob i) = jobs s (FollowupJob i)" for i
    unfolding br
    by (simp add: self_report_done_effects(2) self_report_postpone_effects(2)
        split: option.splits)
  have o: "filter (is_verdict \<circ> body) (outbox (on_reaction_add env ev s))
             = filter (is_verdict \<circ> body) (outbox s)"
    unfolding br
    by (simp add: self_report_done_effects(3) self_report_postpone_effects(3)
        split: option.splits)
  have "\<exists>f i. self_report_write f \<and> db (on_reaction_add env ev s) = update_where_id f i (db s)"
  proof -
    have id: "\<exists>f i. self_report_write f \<and> db s = update_where_id f i (db s)"
      by (rule exI [of _ "\<lambda>x. x"]) (simp add: self_report_write_def update_where_id_id)
    have d: "\<exists>f i. self_report_write f
               \<and> db (self_report_done env ev mentioned r s) = update_where_id f i (db s)" for r
      using self_report_done_effects(1) [of env ev mentioned r s] by blast
    have p: "\<exists>f i. self_report_write f
               \<and> db (self_report_postpone env ev mentioned r s) = update_where_id f i (db s)" for r
      using self_report_postpone_effects(1) [of env ev mentioned r s] by blast
    show ?thesis
      unfolding br using id d p by (simp split: option.splits)
  qed
  then obtain f i where f: "self_report_write f"
    "db (on_reaction_add env ev s) = update_where_id f i (db s)" by blast
  have v: "list_all2 (\<lambda>x y. verification_message_id x \<noteq> None
                               \<longrightarrow> verification_message_id y \<noteq> None)
              (db s) (db (on_reaction_add env ev s))"
    unfolding f(2) using f(1) by (intro update_where_id_rel) (simp_all add: self_report_write_def)
  have "list_all2 (\<lambda>x y. last_message_id y = last_message_id x)
              (db s) (db (on_reaction_add env ev s))"
    unfolding f(2) using f(1) by (intro update_where_id_rel) (simp_all add: self_report_write_def)
  then have l: "map last_message_id (db (on_reaction_add env ev s)) = map last_message_id (db s)"
    by (induction rule: list_all2_induct) simp_all
  from a j v l o show ?thesis by blast
qed

theorem assignee_never_takes_peer_branch_witness:
  "message_mentions ((peer_reacts ThumbsDown 20)\<lparr>reactor_id := 7\<rparr>) = 7 # []
   \<and> reactor_id ((peer_reacts ThumbsDown 20)\<lparr>reactor_id := 7\<rparr>) = 7
   \<and> is_peer_verification ((peer_reacts ThumbsDown 20)\<lparr>reactor_id := 7\<rparr>)
   \<and> map verification_message_id (db awaiting_peer)
       = [Some (message_id ((peer_reacts ThumbsDown 20)\<lparr>reactor_id := 7\<rparr>))]
   \<and> on_reaction_add scene_env ((peer_reacts ThumbsDown 20)\<lparr>reactor_id := 7\<rparr>) awaiting_peer
       = on_reaction_add scene_env
           ((peer_reacts ThumbsDown 20)\<lparr>reactor_id := 7, reactor_roles := []\<rparr>) awaiting_peer
   \<and> (\<forall>i. jobs (on_reaction_add scene_env ((peer_reacts ThumbsDown 20)\<lparr>reactor_id := 7\<rparr>)
                 awaiting_peer) (FollowupJob i) = jobs awaiting_peer (FollowupJob i))
   \<and> db (on_reaction_add scene_env ((peer_reacts ThumbsDown 20)\<lparr>reactor_id := 7\<rparr>) awaiting_peer)
       = [dishes\<lparr>next_reminder := ''2024-01-01 11:00:00'', retry_count := Some 1,
                 verification_message_id := Some 20\<rparr>]"
  using assignee_never_takes_peer_branch
          [OF own_verification_scene(1,2), of scene_env awaiting_peer]
        own_verification_scene
  by blast

end
